theory Spec2Isabelle
  imports Main "HOL-Library.Word" "HOL-Library.Finite_Map"
begin

unbundle bit_operations_syntax

section \<open>Preference store (common/prefs.cc)\<close>

subsection \<open>Character classes of the C library, in the "C" locale\<close>

definition isalpha :: "char \<Rightarrow> bool" where
  "isalpha c = (let n = (of_char c :: nat) in (65 \<le> n \<and> n \<le> 90) \<or> (97 \<le> n \<and> n \<le> 122))"

definition isdigit :: "char \<Rightarrow> bool" where
  "isdigit c = (let n = (of_char c :: nat) in 48 \<le> n \<and> n \<le> 57)"

definition isspace :: "char \<Rightarrow> bool" where
  "isspace c = (let n = (of_char c :: nat) in n = 32 \<or> (9 \<le> n \<and> n \<le> 13))"

text \<open>Modelled from the spec: \<open>kKeySeparator\<close> is declared in prefs_interface.h, which is
  not part of the sources; key paths have their segments separated by a slash.\<close>

definition kKeySeparator :: char where
  "kKeySeparator = CHR ''/''"

subsection \<open>The two directories of the file store\<close>

text \<open>A directory entry is a regular file with its contents or a directory with its
  entries. The file store touches two directories: the preference directory and its
  sibling with the suffix \<open>_tmp\<close>; each one is absent or present with its tree.\<close>

datatype node = File string | Dir "(string, node) fmap"

type_synonym path = "string list"

datatype which_dir = PrefsDir | TemporaryDir

text \<open>A file name: the directory it is under, the components of the path below it, and
  whether the name ends in a separator. A name that ends in a separator stands for a
  directory: the operating system resolves it only when the last component is one.\<close>

type_synonym filename = "which_dir \<times> path \<times> bool"

datatype fs_call =
    FsExists which_dir
  | FsDirectoryExists "filename option"
  | FsCreateDirectory "filename option"
  | FsReadFile filename
  | FsWriteFile filename string
  | FsPathExists filename
  | FsDeleteFile filename
  | FsRemoveAll which_dir
  | FsCopy which_dir which_dir
  | FsRename which_dir which_dir
  | FsFsyncParent
  | FsEnumerate which_dir

record file_storage =
  prefs_dir :: "node option"
  tmp_dir :: "node option"
  calls :: "fs_call list"

definition get_dir :: "which_dir \<Rightarrow> file_storage \<Rightarrow> node option" where
  "get_dir d fs = (case d of PrefsDir \<Rightarrow> prefs_dir fs | TemporaryDir \<Rightarrow> tmp_dir fs)"

definition set_dir :: "which_dir \<Rightarrow> node option \<Rightarrow> file_storage \<Rightarrow> file_storage" where
  "set_dir d n fs = (case d of PrefsDir \<Rightarrow> fs\<lparr>prefs_dir := n\<rparr> | TemporaryDir \<Rightarrow> fs\<lparr>tmp_dir := n\<rparr>)"

definition fs_log :: "fs_call \<Rightarrow> file_storage \<Rightarrow> file_storage" where
  "fs_log c fs = fs\<lparr>calls := calls fs @ [c]\<rparr>"

text \<open>Path resolution: the key is appended to the directory name after a slash as it is,
  and the operating system ignores empty path components; a separator at the end of the
  key stays at the end of the file name.\<close>

fun split_segments :: "string \<Rightarrow> string \<Rightarrow> string list" where
  "split_segments cur [] = (if cur = [] then [] else [cur])"
| "split_segments cur (c # cs) =
     (if c = CHR ''/'' then (if cur = [] then [] else [cur]) @ split_segments [] cs
      else split_segments (cur @ [c]) cs)"

definition path_of_key :: "string \<Rightarrow> path" where
  "path_of_key key = split_segments [] key"

definition ends_with_separator :: "string \<Rightarrow> bool" where
  "ends_with_separator key = (key \<noteq> [] \<and> last key = CHR ''/'')"

fun walk :: "node \<Rightarrow> path \<Rightarrow> node option" where
  "walk n [] = Some n"
| "walk (File c) (s # ss) = None"
| "walk (Dir m) (s # ss) = (case fmlookup m s of None \<Rightarrow> None | Some n \<Rightarrow> walk n ss)"

text \<open>What a file name resolves to: a regular file is not found under a name that ends
  in a separator (\<open>ENOTDIR\<close>).\<close>

definition resolve :: "node \<Rightarrow> path \<Rightarrow> bool \<Rightarrow> node option" where
  "resolve n p slash =
     (case walk n p of
        Some (File c) \<Rightarrow> if slash then None else Some (File c)
      | r \<Rightarrow> r)"

text \<open>\<open>base::CreateDirectory\<close>: creates the directory and every missing parent; fails
  when a component of the path is a regular file.\<close>

fun mkdirs :: "node \<Rightarrow> path \<Rightarrow> node option" where
  "mkdirs (File c) p = None"
| "mkdirs (Dir m) [] = Some (Dir m)"
| "mkdirs (Dir m) (s # ss) =
     (case mkdirs (case fmlookup m s of None \<Rightarrow> Dir fmempty | Some n \<Rightarrow> n) ss of
        None \<Rightarrow> None
      | Some n' \<Rightarrow> Some (Dir (fmupd s n' m)))"

text \<open>Modelled from the spec: \<open>utils::WriteStringToFileAtomic\<close> (common/utils.cc is not
  part of the sources) writes a temporary file and renames it over the target, so the
  write is atomic per key. It needs the parent directory, and the target must not be a
  directory: not an existing one, and not a name that ends in a separator.\<close>

fun write_file :: "node \<Rightarrow> path \<Rightarrow> string \<Rightarrow> node option" where
  "write_file n [] v = None"
| "write_file (File c) (s # ss) v = None"
| "write_file (Dir m) [s] v =
     (case fmlookup m s of
        Some (Dir es) \<Rightarrow> None
      | _ \<Rightarrow> Some (Dir (fmupd s (File v) m)))"
| "write_file (Dir m) (s # ss) v =
     (case fmlookup m s of
        None \<Rightarrow> None
      | Some n \<Rightarrow> (case write_file n ss v of
                     None \<Rightarrow> None
                   | Some n' \<Rightarrow> Some (Dir (fmupd s n' m))))"

text \<open>\<open>base::DeleteFile\<close>, not recursive: a missing path counts as deleted, and so
  does a path through a regular file (\<open>ENOTDIR\<close>); a regular file is unlinked, a directory
  is removed only when it is empty. The result \<open>None\<close> as new tree says that the directory
  at the root of the tree itself was removed.\<close>

definition is_empty_dir :: "(string, node) fmap \<Rightarrow> bool" where
  "is_empty_dir m = (fmdom m = {||})"

fun delete_file :: "node \<Rightarrow> path \<Rightarrow> bool \<times> node option" where
  "delete_file (File c) [] = (True, None)"
| "delete_file (Dir m) [] = (if is_empty_dir m then (True, None) else (False, Some (Dir m)))"
| "delete_file (File c) (s # ss) = (True, Some (File c))"
| "delete_file (Dir m) (s # ss) =
     (case fmlookup m s of
        None \<Rightarrow> (True, Some (Dir m))
      | Some n \<Rightarrow> (case delete_file n ss of
                     (ok, None) \<Rightarrow> (ok, Some (Dir (fmdrop s m)))
                   | (ok, Some n') \<Rightarrow> (ok, Some (Dir (fmupd s n' m)))))"

text \<open>\<open>DeleteEmptyDirectories\<close>: for every sub-directory, first the same in it, then the
  sub-directory is deleted if it is empty by now.\<close>

primrec DeleteEmptyDirectories :: "node \<Rightarrow> node" where
  "DeleteEmptyDirectories (File c) = File c"
| "DeleteEmptyDirectories (Dir m) =
     (let m' = fmmap DeleteEmptyDirectories m
      in Dir (fmfilter (\<lambda>k. fmlookup m' k \<noteq> Some (Dir fmempty)) m'))"

text \<open>\<open>std::filesystem::copy\<close> of a directory without options: the regular files of the
  directory are copied, its sub-directories are not. Copying onto an existing file is an
  error.\<close>

definition is_file :: "node \<Rightarrow> bool" where
  "is_file n = (case n of File c \<Rightarrow> True | Dir m \<Rightarrow> False)"

definition top_level_files :: "(string, node) fmap \<Rightarrow> (string, node) fmap" where
  "top_level_files m = fmfilter (\<lambda>k. case fmlookup m k of Some n \<Rightarrow> is_file n | None \<Rightarrow> False) m"

definition copy_dir :: "node \<Rightarrow> node option \<Rightarrow> node option" where
  "copy_dir src dst =
     (case src of
        File c \<Rightarrow> (case dst of None \<Rightarrow> Some (File c) | Some n \<Rightarrow> None)
      | Dir m \<Rightarrow>
          (case dst of
             None \<Rightarrow> Some (Dir (top_level_files m))
           | Some (File c) \<Rightarrow> None
           | Some (Dir m2) \<Rightarrow>
               (if fmdom (top_level_files m) |\<inter>| fmdom m2 = {||}
                then Some (Dir (m2 ++\<^sub>f top_level_files m)) else None)))"

subsection \<open>File system calls, each one recorded\<close>

definition fs_exists :: "which_dir \<Rightarrow> file_storage \<Rightarrow> bool \<times> file_storage" where
  "fs_exists d fs = (get_dir d fs \<noteq> None, fs_log (FsExists d) fs)"

text \<open>\<open>FilePath::DirName\<close>, the directory part of a file name: separators at the end
  are dropped first, then the last component. The directory part of the root of one of
  the two trees is its parent directory (\<open>None\<close>), which is there.\<close>

definition DirName :: "filename \<Rightarrow> filename option" where
  "DirName f = (case f of (d, p, slash) \<Rightarrow> if p = [] then None else Some (d, butlast p, False))"

definition DirectoryExists :: "filename option \<Rightarrow> file_storage \<Rightarrow> bool \<times> file_storage" where
  "DirectoryExists loc fs =
     ((case loc of
         None \<Rightarrow> True
       | Some (d, p, slash) \<Rightarrow>
           (case get_dir d fs of
              None \<Rightarrow> False
            | Some n \<Rightarrow> (case walk n p of Some (Dir m) \<Rightarrow> True | _ \<Rightarrow> False))),
      fs_log (FsDirectoryExists loc) fs)"

definition CreateDirectory :: "filename option \<Rightarrow> file_storage \<Rightarrow> bool \<times> file_storage" where
  "CreateDirectory loc fs =
     (let fs1 = fs_log (FsCreateDirectory loc) fs
      in case loc of
           None \<Rightarrow> (True, fs1)
         | Some (d, p, slash) \<Rightarrow>
             (case mkdirs (case get_dir d fs of None \<Rightarrow> Dir fmempty | Some n \<Rightarrow> n) p of
                None \<Rightarrow> (False, fs1)
              | Some n' \<Rightarrow> (True, set_dir d (Some n') fs1)))"

definition ReadFileToString :: "filename \<Rightarrow> file_storage \<Rightarrow> string option \<times> file_storage" where
  "ReadFileToString f fs =
     ((case f of (d, p, slash) \<Rightarrow>
         (case get_dir d fs of
            None \<Rightarrow> None
          | Some n \<Rightarrow> (case resolve n p slash of Some (File c) \<Rightarrow> Some c | _ \<Rightarrow> None))),
      fs_log (FsReadFile f) fs)"

definition WriteStringToFileAtomic :: "filename \<Rightarrow> string \<Rightarrow> file_storage \<Rightarrow> bool \<times> file_storage" where
  "WriteStringToFileAtomic f v fs =
     (let fs1 = fs_log (FsWriteFile f v) fs
      in case f of (d, p, slash) \<Rightarrow>
           if slash then (False, fs1)
           else
             (case get_dir d fs of
                None \<Rightarrow> (False, fs1)
              | Some n \<Rightarrow> (case write_file n p v of
                             None \<Rightarrow> (False, fs1)
                           | Some n' \<Rightarrow> (True, set_dir d (Some n') fs1))))"

definition PathExists :: "filename \<Rightarrow> file_storage \<Rightarrow> bool \<times> file_storage" where
  "PathExists f fs =
     ((case f of (d, p, slash) \<Rightarrow>
         (case get_dir d fs of None \<Rightarrow> False | Some n \<Rightarrow> resolve n p slash \<noteq> None)),
      fs_log (FsPathExists f) fs)"

definition DeleteFile :: "filename \<Rightarrow> file_storage \<Rightarrow> bool \<times> file_storage" where
  "DeleteFile f fs =
     (let fs1 = fs_log (FsDeleteFile f) fs
      in case f of (d, p, slash) \<Rightarrow>
           (case get_dir d fs of
              None \<Rightarrow> (True, fs1)
            | Some n \<Rightarrow>
                if slash \<and> (case walk n p of Some (File c) \<Rightarrow> True | _ \<Rightarrow> False)
                then (True, fs1)
                else (case delete_file n p of (ok, n') \<Rightarrow> (ok, set_dir d n' fs1))))"

definition remove_all :: "which_dir \<Rightarrow> file_storage \<Rightarrow> bool \<times> file_storage" where
  "remove_all d fs = (True, set_dir d None (fs_log (FsRemoveAll d) fs))"

text \<open>Modelled from the spec: \<open>utils::DeleteDirectory\<close> (common/utils.cc is not part of
  the sources) removes the directory with all it holds; on submit the spec has
  \<open>rmdir <root>\<close>, and on init the temporary directory is promoted when the root is
  missing, so removing a missing directory succeeds.\<close>

definition DeleteDirectory :: "which_dir \<Rightarrow> file_storage \<Rightarrow> bool \<times> file_storage" where
  "DeleteDirectory d fs = (True, set_dir d None (fs_log (FsRemoveAll d) fs))"

text \<open>\<open>rename(2)\<close> of a directory: the old name must exist; the new name must be free
  or an empty directory (a regular file is replaced by a regular file only).\<close>

definition rename_dir :: "which_dir \<Rightarrow> which_dir \<Rightarrow> file_storage \<Rightarrow> bool \<times> file_storage" where
  "rename_dir src dst fs =
     (let fs1 = fs_log (FsRename src dst) fs
      in case get_dir src fs of
           None \<Rightarrow> (False, fs1)
         | Some n \<Rightarrow>
             (if (case get_dir dst fs of
                    None \<Rightarrow> True
                  | Some (Dir m) \<Rightarrow> \<not> is_file n \<and> is_empty_dir m
                  | Some (File c) \<Rightarrow> is_file n)
              then (True, set_dir dst (Some n) (set_dir src None fs1))
              else (False, fs1)))"

definition copy_call :: "which_dir \<Rightarrow> which_dir \<Rightarrow> file_storage \<Rightarrow> bool \<times> file_storage" where
  "copy_call src dst fs =
     (let fs1 = fs_log (FsCopy src dst) fs
      in case get_dir src fs of
           None \<Rightarrow> (False, fs1)
         | Some n \<Rightarrow> (case copy_dir n (get_dir dst fs) of
                        None \<Rightarrow> (False, fs1)
                      | Some n' \<Rightarrow> (True, set_dir dst (Some n') fs1)))"

text \<open>Modelled from the spec: \<open>utils::FsyncDirectory\<close> (common/utils.cc is not part of
  the sources) flushes the parent directory; it changes no content, and \<open>SwapPrefs\<close>
  ignores its result.\<close>

definition FsyncDirectory :: "file_storage \<Rightarrow> bool \<times> file_storage" where
  "FsyncDirectory fs = (True, fs_log FsFsyncParent fs)"

subsection \<open>Prefs::FileStorage\<close>

fun key_chars_ok :: "string \<Rightarrow> bool" where
  "key_chars_ok [] = True"
| "key_chars_ok (c # cs) =
     (if isalpha c \<or> isdigit c \<or> c = CHR ''_'' \<or> c = CHR ''-'' \<or> c = kKeySeparator
      then key_chars_ok cs else False)"

definition GetFileNameForKey :: "file_storage \<Rightarrow> string \<Rightarrow> filename option \<times> file_storage" where
  "GetFileNameForKey fs key =
     (if key = [] then (None, fs)
      else if \<not> key_chars_ok key then (None, fs)
      else (case fs_exists TemporaryDir fs of (tmp, fs1) \<Rightarrow>
              if tmp then (Some (TemporaryDir, path_of_key key, ends_with_separator key), fs1)
              else (Some (PrefsDir, path_of_key key, ends_with_separator key), fs1)))"

definition GetKey :: "file_storage \<Rightarrow> string \<Rightarrow> string option \<times> file_storage" where
  "GetKey fs key =
     (case GetFileNameForKey fs key of
        (None, fs1) \<Rightarrow> (None, fs1)
      | (Some f, fs1) \<Rightarrow> ReadFileToString f fs1)"

definition SetKey :: "file_storage \<Rightarrow> string \<Rightarrow> string \<Rightarrow> bool \<times> file_storage" where
  "SetKey fs key v =
     (case GetFileNameForKey fs key of
        (None, fs1) \<Rightarrow> (False, fs1)
      | (Some f, fs1) \<Rightarrow>
          (case DirectoryExists (DirName f) fs1 of (there, fs2) \<Rightarrow>
             if \<not> there then
               (case CreateDirectory (DirName f) fs2 of (made, fs3) \<Rightarrow>
                  if \<not> made then (False, fs3) else WriteStringToFileAtomic f v fs3)
             else WriteStringToFileAtomic f v fs2))"

definition KeyExists :: "file_storage \<Rightarrow> string \<Rightarrow> bool \<times> file_storage" where
  "KeyExists fs key =
     (case GetFileNameForKey fs key of
        (None, fs1) \<Rightarrow> (False, fs1)
      | (Some f, fs1) \<Rightarrow> PathExists f fs1)"

definition DeleteKey :: "file_storage \<Rightarrow> string \<Rightarrow> bool \<times> file_storage" where
  "DeleteKey fs key =
     (case GetFileNameForKey fs key of
        (None, fs1) \<Rightarrow> (False, fs1)
      | (Some f, fs1) \<Rightarrow> DeleteFile f fs1)"

definition DeleteTemporaryPrefs :: "file_storage \<Rightarrow> bool \<times> file_storage" where
  "DeleteTemporaryPrefs fs =
     (case fs_exists TemporaryDir fs of (there, fs1) \<Rightarrow>
        if there then
          (case remove_all TemporaryDir fs1 of (ok, fs2) \<Rightarrow>
             if \<not> ok then (False, fs2) else (True, fs2))
        else (True, fs1))"

definition CreateTemporaryPrefs :: "file_storage \<Rightarrow> bool \<times> file_storage" where
  "CreateTemporaryPrefs fs =
     (case DeleteTemporaryPrefs fs of (deleted, fs1) \<Rightarrow>
        (case fs_exists PrefsDir fs1 of (there, fs2) \<Rightarrow>
           if \<not> there then (False, fs2)
           else (case copy_call PrefsDir TemporaryDir fs2 of (ok, fs3) \<Rightarrow>
                   if \<not> ok then (False, fs3) else (True, fs3))))"

definition SwapPrefs :: "file_storage \<Rightarrow> bool \<times> file_storage" where
  "SwapPrefs fs =
     (case DeleteDirectory PrefsDir fs of (deleted, fs1) \<Rightarrow>
        if \<not> deleted then (False, fs1)
        else (case rename_dir TemporaryDir PrefsDir fs1 of (renamed, fs2) \<Rightarrow>
                if \<not> renamed then (False, fs2)
                else (case FsyncDirectory fs2 of (synced, fs3) \<Rightarrow> (True, fs3))))"

definition prune_prefs_dir :: "file_storage \<Rightarrow> file_storage" where
  "prune_prefs_dir fs =
     (fs_log (FsEnumerate PrefsDir) fs)\<lparr>prefs_dir := map_option DeleteEmptyDirectories (prefs_dir fs)\<rparr>"

definition Init :: "file_storage \<Rightarrow> bool \<times> file_storage" where
  "Init fs =
     (case fs_exists PrefsDir fs of (root, fs1) \<Rightarrow>
        let fs3 = (if \<not> root then
                     (case fs_exists TemporaryDir fs1 of (tmp, fs2) \<Rightarrow>
                        if tmp then snd (SwapPrefs fs2) else fs2)
                   else fs1)
        in (case fs_exists TemporaryDir fs3 of (tmp, fs4) \<Rightarrow>
              if tmp then
                (case DeleteDirectory TemporaryDir fs4 of (deleted, fs5) \<Rightarrow>
                   if \<not> deleted then (False, fs5) else (True, prune_prefs_dir fs5))
              else (True, prune_prefs_dir fs4)))"

text \<open>\<open>PrefsBase::StartTransaction\<close>, \<open>CancelTransaction\<close> and \<open>SubmitTransaction\<close> hand
  over to the storage; this is what they are for the file store.\<close>

definition StartTransaction :: "file_storage \<Rightarrow> bool \<times> file_storage" where
  "StartTransaction fs = CreateTemporaryPrefs fs"

definition CancelTransaction :: "file_storage \<Rightarrow> bool \<times> file_storage" where
  "CancelTransaction fs = DeleteTemporaryPrefs fs"

definition SubmitTransaction :: "file_storage \<Rightarrow> bool \<times> file_storage" where
  "SubmitTransaction fs = SwapPrefs fs"

subsection \<open>MemoryPrefs::MemoryStorage\<close>

type_synonym memory_storage = "string \<rightharpoonup> string"

definition mem_GetKey :: "memory_storage \<Rightarrow> string \<Rightarrow> string option" where
  "mem_GetKey values key = values key"

definition mem_SetKey :: "memory_storage \<Rightarrow> string \<Rightarrow> string \<Rightarrow> bool \<times> memory_storage" where
  "mem_SetKey values key v = (True, values(key \<mapsto> v))"

definition mem_KeyExists :: "memory_storage \<Rightarrow> string \<Rightarrow> bool" where
  "mem_KeyExists values key = (values key \<noteq> None)"

definition mem_DeleteKey :: "memory_storage \<Rightarrow> string \<Rightarrow> bool \<times> memory_storage" where
  "mem_DeleteKey values key = (True, values(key := None))"

subsection \<open>PrefsBase\<close>

datatype storage = FileStorage file_storage | MemoryStorage memory_storage

definition st_GetKey :: "storage \<Rightarrow> string \<Rightarrow> string option \<times> storage" where
  "st_GetKey st key =
     (case st of
        FileStorage fs \<Rightarrow> (case GetKey fs key of (r, fs1) \<Rightarrow> (r, FileStorage fs1))
      | MemoryStorage values \<Rightarrow> (mem_GetKey values key, st))"

definition st_SetKey :: "storage \<Rightarrow> string \<Rightarrow> string \<Rightarrow> bool \<times> storage" where
  "st_SetKey st key v =
     (case st of
        FileStorage fs \<Rightarrow> (case SetKey fs key v of (r, fs1) \<Rightarrow> (r, FileStorage fs1))
      | MemoryStorage values \<Rightarrow> (case mem_SetKey values key v of (r, m1) \<Rightarrow> (r, MemoryStorage m1)))"

definition st_KeyExists :: "storage \<Rightarrow> string \<Rightarrow> bool \<times> storage" where
  "st_KeyExists st key =
     (case st of
        FileStorage fs \<Rightarrow> (case KeyExists fs key of (r, fs1) \<Rightarrow> (r, FileStorage fs1))
      | MemoryStorage values \<Rightarrow> (mem_KeyExists values key, st))"

definition st_DeleteKey :: "storage \<Rightarrow> string \<Rightarrow> bool \<times> storage" where
  "st_DeleteKey st key =
     (case st of
        FileStorage fs \<Rightarrow> (case DeleteKey fs key of (r, fs1) \<Rightarrow> (r, FileStorage fs1))
      | MemoryStorage values \<Rightarrow> (case mem_DeleteKey values key of (r, m1) \<Rightarrow> (r, MemoryStorage m1)))"

text \<open>Observers are identified by a number (their address). What an observer does when it
  is called is a parameter: it sees the preferences as they are at the call and gives back
  the table of observers, where it may have registered or unregistered any observer. Each
  call is recorded with the storage it has seen.\<close>

type_synonym observer = nat

datatype pref_event = OnPrefSet | OnPrefDeleted

type_synonym observer_table = "string \<rightharpoonup> observer list"

record prefs =
  the_storage :: storage
  the_observers :: observer_table
  fired :: "(observer \<times> pref_event \<times> string \<times> storage) list"

type_synonym handler = "observer \<Rightarrow> pref_event \<Rightarrow> string \<Rightarrow> prefs \<Rightarrow> observer_table"

definition invoke :: "handler \<Rightarrow> pref_event \<Rightarrow> string \<Rightarrow> prefs \<Rightarrow> observer \<Rightarrow> prefs" where
  "invoke h ev key p ob =
     p\<lparr>the_observers := h ob ev key p, fired := fired p @ [(ob, ev, key, the_storage p)]\<rparr>"

fun notify_all :: "handler \<Rightarrow> pref_event \<Rightarrow> string \<Rightarrow> observer list \<Rightarrow> prefs \<Rightarrow> prefs" where
  "notify_all h ev key [] p = p"
| "notify_all h ev key (ob # copy_observers) p =
     notify_all h ev key copy_observers (invoke h ev key p ob)"

definition GetString :: "prefs \<Rightarrow> string \<Rightarrow> string option \<times> prefs" where
  "GetString p key = (case st_GetKey (the_storage p) key of (r, st1) \<Rightarrow> (r, p\<lparr>the_storage := st1\<rparr>))"

definition SetString :: "handler \<Rightarrow> prefs \<Rightarrow> string \<Rightarrow> string \<Rightarrow> bool \<times> prefs" where
  "SetString h p key v =
     (case st_SetKey (the_storage p) key v of (ok, st1) \<Rightarrow>
        if \<not> ok then (False, p\<lparr>the_storage := st1\<rparr>)
        else (case the_observers p key of
                None \<Rightarrow> (True, p\<lparr>the_storage := st1\<rparr>)
              | Some copy_observers \<Rightarrow>
                  (True, notify_all h OnPrefSet key copy_observers (p\<lparr>the_storage := st1\<rparr>))))"

definition Exists :: "prefs \<Rightarrow> string \<Rightarrow> bool \<times> prefs" where
  "Exists p key = (case st_KeyExists (the_storage p) key of (r, st1) \<Rightarrow> (r, p\<lparr>the_storage := st1\<rparr>))"

definition Delete :: "handler \<Rightarrow> prefs \<Rightarrow> string \<Rightarrow> bool \<times> prefs" where
  "Delete h p key =
     (case st_DeleteKey (the_storage p) key of (ok, st1) \<Rightarrow>
        if \<not> ok then (False, p\<lparr>the_storage := st1\<rparr>)
        else (case the_observers p key of
                None \<Rightarrow> (True, p\<lparr>the_storage := st1\<rparr>)
              | Some copy_observers \<Rightarrow>
                  (True, notify_all h OnPrefDeleted key copy_observers (p\<lparr>the_storage := st1\<rparr>))))"

definition AddObserver :: "prefs \<Rightarrow> string \<Rightarrow> observer \<Rightarrow> prefs" where
  "AddObserver p key ob =
     p\<lparr>the_observers := (the_observers p)(key \<mapsto>
          (case the_observers p key of None \<Rightarrow> [] | Some obs \<Rightarrow> obs) @ [ob])\<rparr>"

definition RemoveObserver :: "prefs \<Rightarrow> string \<Rightarrow> observer \<Rightarrow> prefs" where
  "RemoveObserver p key ob =
     p\<lparr>the_observers := (the_observers p)(key \<mapsto>
          remove1 ob (case the_observers p key of None \<Rightarrow> [] | Some obs \<Rightarrow> obs))\<rparr>"

subsection \<open>Text of integers and booleans\<close>

type_synonym int64 = "64 word"

definition digit_char :: "nat \<Rightarrow> char" where
  "digit_char d = char_of (48 + d)"

text \<open>\<open>std::format("{}", value)\<close> of a signed 64-bit integer: the decimal digits, most
  significant first, after a minus sign when the value is negative.\<close>

fun dec_digits :: "nat \<Rightarrow> string" where
  "dec_digits n = (if n < 10 then [digit_char n] else dec_digits (n div 10) @ [digit_char (n mod 10)])"

definition format_int64 :: "int64 \<Rightarrow> string" where
  "format_int64 v =
     (if sint v < 0 then CHR ''-'' # dec_digits (nat (- sint v)) else dec_digits (nat (sint v)))"

text \<open>\<open>android::base::Trim\<close>: the string without the white space at its two ends.\<close>

definition Trim :: "string \<Rightarrow> string" where
  "Trim s = rev (dropWhile isspace (rev (dropWhile isspace s)))"

text \<open>\<open>strtoll\<close>: white space, an optional sign, for base 16 an optional \<open>0x\<close>, then the
  digits of the base. It gives the value (the nearest bound when out of range), the rest
  of the string, whether any digit was converted, and whether the value was out of range.\<close>

definition digit_value :: "char \<Rightarrow> nat" where
  "digit_value c =
     (let n = (of_char c :: nat)
      in if 48 \<le> n \<and> n \<le> 57 then n - 48
         else if 97 \<le> n \<and> n \<le> 102 then n - 87
         else if 65 \<le> n \<and> n \<le> 70 then n - 55
         else 99)"

definition is_digit_of :: "nat \<Rightarrow> char \<Rightarrow> bool" where
  "is_digit_of base c = (digit_value c < base)"

definition LLONG_MAX :: int where
  "LLONG_MAX = 2 ^ 63 - 1"

definition LLONG_MIN :: int where
  "LLONG_MIN = - (2 ^ 63)"

definition has_hex_prefix :: "string \<Rightarrow> bool" where
  "has_hex_prefix s =
     (case s of c0 # c1 # cs \<Rightarrow> c0 = CHR ''0'' \<and> (c1 = CHR ''x'' \<or> c1 = CHR ''X'') | _ \<Rightarrow> False)"

definition strtoll :: "string \<Rightarrow> nat \<Rightarrow> int \<times> string \<times> bool \<times> bool" where
  "strtoll s base =
     (let s1 = dropWhile isspace s;
          neg = (case s1 of c # cs \<Rightarrow> c = CHR ''-'' | [] \<Rightarrow> False);
          s2 = (case s1 of c # cs \<Rightarrow> if c = CHR ''-'' \<or> c = CHR ''+'' then cs else s1 | [] \<Rightarrow> s1);
          s3 = (if base = 16 \<and> has_hex_prefix s2 \<and>
                   (case drop 2 s2 of c # cs \<Rightarrow> is_digit_of 16 c | [] \<Rightarrow> False)
                then drop 2 s2 else s2);
          ds = takeWhile (is_digit_of base) s3;
          rest = dropWhile (is_digit_of base) s3;
          mag = foldl (\<lambda>a c. a * base + digit_value c) 0 ds;
          v = (if neg then - int mag else int mag)
      in if ds = [] then (0, s, False, False)
         else if v > LLONG_MAX then (LLONG_MAX, rest, True, True)
         else if v < LLONG_MIN then (LLONG_MIN, rest, True, True)
         else (v, rest, True, False))"

text \<open>\<open>android::base::ParseInt<int64_t>\<close> on the characters before the first NUL: base 16
  after \<open>0x\<close>, base 10 otherwise; the whole string must be converted and in range.\<close>

definition ParseInt :: "string \<Rightarrow> int64 option" where
  "ParseInt str =
     (let s = dropWhile isspace (takeWhile (\<lambda>c. c \<noteq> char_of (0 :: nat)) str);
          base = (if has_hex_prefix s then 16 else 10)
      in case strtoll s base of (result, rest, converted, erange) \<Rightarrow>
           if erange then None
           else if \<not> converted \<or> rest \<noteq> [] then None
           else if result < LLONG_MIN \<or> LLONG_MAX < result then None
           else Some (word_of_int result))"

definition GetInt64 :: "prefs \<Rightarrow> string \<Rightarrow> int64 option \<times> prefs" where
  "GetInt64 p key =
     (case GetString p key of
        (None, p1) \<Rightarrow> (None, p1)
      | (Some str_value, p1) \<Rightarrow>
          (let trimmed = Trim str_value
           in if trimmed = [] then (None, p1) else (ParseInt trimmed, p1)))"

definition SetInt64 :: "handler \<Rightarrow> prefs \<Rightarrow> string \<Rightarrow> int64 \<Rightarrow> bool \<times> prefs" where
  "SetInt64 h p key v = SetString h p key (format_int64 v)"

definition GetBoolean :: "prefs \<Rightarrow> string \<Rightarrow> bool option \<times> prefs" where
  "GetBoolean p key =
     (case GetString p key of
        (None, p1) \<Rightarrow> (None, p1)
      | (Some str_value, p1) \<Rightarrow>
          (let trimmed = Trim str_value
           in if trimmed = ''false'' then (Some False, p1)
              else if trimmed = ''true'' then (Some True, p1)
              else (None, p1)))"

definition SetBoolean :: "handler \<Rightarrow> prefs \<Rightarrow> string \<Rightarrow> bool \<Rightarrow> bool \<times> prefs" where
  "SetBoolean h p key v = SetString h p key (if v then ''true'' else ''false'')"

subsection \<open>The key class of the specification\<close>

text \<open>The specification names the class of key characters: ASCII letters, digits,
  underscore, hyphen and slash, in a key that is not empty.\<close>

definition key_alphabet :: "char list" where
  "key_alphabet = ''ABCDEFGHIJKLMNOPQRSTUVWXYZabcdefghijklmnopqrstuvwxyz0123456789_-/''"

definition spec_valid_key :: "string \<Rightarrow> bool" where
  "spec_valid_key key = (key \<noteq> [] \<and> list_all (\<lambda>c. c \<in> set key_alphabet) key)"

subsection \<open>Notions used to state the properties of the store\<close>

text \<open>The observers registered for a key, in the order of their registration.\<close>

definition registered :: "prefs \<Rightarrow> string \<Rightarrow> observer list" where
  "registered p key = (case the_observers p key of None \<Rightarrow> [] | Some obs \<Rightarrow> obs)"

text \<open>What the file store answers for a key.\<close>

definition stored :: "file_storage \<Rightarrow> string \<Rightarrow> string option" where
  "stored fs key = fst (GetKey fs key)"

text \<open>The operations of a transaction, run one after the other; a failing operation
  changes what it changes and the next one runs all the same.\<close>

datatype txn_op = TxSet string string | TxDelete string | TxGet string | TxExists string

fun run_ops :: "file_storage \<Rightarrow> txn_op list \<Rightarrow> file_storage" where
  "run_ops fs [] = fs"
| "run_ops fs (TxSet key v # ops) = run_ops (snd (SetKey fs key v)) ops"
| "run_ops fs (TxDelete key # ops) = run_ops (snd (DeleteKey fs key)) ops"
| "run_ops fs (TxGet key # ops) = run_ops (snd (GetKey fs key)) ops"
| "run_ops fs (TxExists key # ops) = run_ops (snd (KeyExists fs key)) ops"

text \<open>The state in which \<open>SwapPrefs\<close> leaves the two directories when the process stops
  after its first step, the removal of the preference directory.\<close>

definition SwapPrefs_stopped_after_removal :: "file_storage \<Rightarrow> file_storage" where
  "SwapPrefs_stopped_after_removal fs = snd (DeleteDirectory PrefsDir fs)"

subsection \<open>Example states\<close>

text \<open>An empty preference directory with no transaction open, an observer behaviour that
  leaves the table of observers alone, and one that unregisters every observer of the key
  as soon as it is called.\<close>

definition empty_store :: file_storage where
  "empty_store = \<lparr>prefs_dir = Some (Dir fmempty), tmp_dir = None, calls = []\<rparr>"

definition quiet :: handler where
  "quiet ob ev key p = the_observers p"

definition unregister_all :: handler where
  "unregister_all ob ev key p = (the_observers p)(key \<mapsto> [])"

definition file_prefs :: prefs where
  "file_prefs = \<lparr>the_storage = FileStorage empty_store, the_observers = Map.empty, fired = []\<rparr>"

definition watched_prefs :: prefs where
  "watched_prefs = \<lparr>the_storage = MemoryStorage Map.empty,
     the_observers = [''boot-id'' \<mapsto> [1, 2]], fired = []\<rparr>"

definition one_key_store :: file_storage where
  "one_key_store = \<lparr>prefs_dir = Some (Dir (fmupd ''boot-id'' (File ''1'') fmempty)),
     tmp_dir = None, calls = []\<rparr>"

section \<open>Payload file writer (payload_generator/payload_file.cc)\<close>

subsection \<open>Manifest data\<close>

type_synonym byte = "8 word"
type_synonym bytes = "byte list"
type_synonym uint64 = "64 word"
type_synonym uint32 = "32 word"

text \<open>Modelled from the spec: the operation types, the extents and the fields of the
  manifest messages come from update_metadata.proto, which is not part of the sources.
  An optional field is an option; its getter gives the default 0 when the field is not
  set.\<close>

datatype InstallOperation_Type =
    REPLACE | REPLACE_BZ | REPLACE_XZ | ZERO | DISCARD | SOURCE_COPY
  | BROTLI_BSDIFF | PUFFDIFF | ZUCCHINI | LZ4DIFF

record Extent =
  start_block :: uint64
  num_blocks :: uint64

record InstallOperation =
  op_type :: InstallOperation_Type
  data_offset :: "uint64 option"
  data_length :: "uint64 option"
  src_extents :: "Extent list"
  dst_extents :: "Extent list"
  data_sha256_hash :: "bytes option"

definition has_data_offset :: "InstallOperation \<Rightarrow> bool" where
  "has_data_offset operation = (data_offset operation \<noteq> None)"

definition has_data_length :: "InstallOperation \<Rightarrow> bool" where
  "has_data_length operation = (data_length operation \<noteq> None)"

definition get_data_offset :: "InstallOperation \<Rightarrow> uint64" where
  "get_data_offset operation = (case data_offset operation of None \<Rightarrow> 0 | Some v \<Rightarrow> v)"

definition get_data_length :: "InstallOperation \<Rightarrow> uint64" where
  "get_data_length operation = (case data_length operation of None \<Rightarrow> 0 | Some v \<Rightarrow> v)"

record CowMergeOperation =
  merge_type :: nat
  merge_src_extent :: Extent
  merge_dst_extent :: Extent
  merge_src_offset :: uint32

record PartitionInfo =
  info_size :: "uint64 option"
  info_hash :: "bytes option"

record PartitionUpdate =
  partition_name :: string
  update_version :: "string option"
  estimate_cow_size :: "uint64 option"
  estimate_op_count_max :: "uint64 option"
  run_postinstall :: "bool option"
  postinstall_path :: "string option"
  filesystem_type :: "string option"
  postinstall_optional :: "bool option"
  hash_tree_data_extent :: "Extent option"
  hash_tree_extent :: "Extent option"
  hash_tree_algorithm :: "string option"
  hash_tree_salt :: "bytes option"
  fec_data_extent :: "Extent option"
  fec_extent :: "Extent option"
  fec_roots :: "uint32 option"
  operations :: "InstallOperation list"
  merge_operations :: "CowMergeOperation list"
  old_partition_info :: "PartitionInfo option"
  new_partition_info :: "PartitionInfo option"

record DeltaArchiveManifest =
  partitions :: "PartitionUpdate list"
  signatures_offset :: "uint64 option"
  signatures_size :: "uint64 option"

definition get_signatures_offset :: "DeltaArchiveManifest \<Rightarrow> uint64" where
  "get_signatures_offset m = (case signatures_offset m of None \<Rightarrow> 0 | Some v \<Rightarrow> v)"

definition get_signatures_size :: "DeltaArchiveManifest \<Rightarrow> uint64" where
  "get_signatures_size m = (case signatures_size m of None \<Rightarrow> 0 | Some v \<Rightarrow> v)"

subsection \<open>Partitions of the generator\<close>

text \<open>The fields of \<open>AnnotatedOperation\<close> and of \<open>PayloadFile::Partition\<close>; \<open>aop_name\<close>,
  \<open>aop_op\<close> and \<open>part_name\<close> are the fields \<open>name\<close>, \<open>op\<close> and \<open>name\<close> of the source.\<close>

record AnnotatedOperation =
  aop_name :: string
  aop_op :: InstallOperation

record PostInstallConfig =
  run :: bool
  config_path :: string
  config_filesystem_type :: string
  optional :: bool

record VerityConfig =
  verity_hash_tree_data_extent :: Extent
  verity_hash_tree_extent :: Extent
  verity_hash_tree_algorithm :: string
  verity_hash_tree_salt :: bytes
  verity_fec_data_extent :: Extent
  verity_fec_extent :: Extent
  verity_fec_roots :: uint32

record CowSizeInfo =
  cow_size :: uint64
  op_count_max :: uint64

record Partition =
  part_name :: string
  aops :: "AnnotatedOperation list"
  cow_merge_sequence :: "CowMergeOperation list"
  postinstall :: PostInstallConfig
  verity :: VerityConfig
  version :: string
  cow_info :: CowSizeInfo
  old_info :: PartitionInfo
  new_info :: PartitionInfo

text \<open>Modelled from the spec: \<open>VerityConfig::IsEmpty\<close> is defined in
  payload_generation_config.cc, which is not part of the sources; a partition has verity
  metadata when one of its verity extents holds blocks.\<close>

definition IsEmpty :: "VerityConfig \<Rightarrow> bool" where
  "IsEmpty v =
     (num_blocks (verity_hash_tree_data_extent v) = 0 \<and> num_blocks (verity_hash_tree_extent v) = 0
      \<and> num_blocks (verity_fec_data_extent v) = 0 \<and> num_blocks (verity_fec_extent v) = 0)"

record PayloadFile =
  major_version :: uint64
  manifest :: DeltaArchiveManifest
  part_vec :: "Partition list"

subsection \<open>What the writer calls\<close>

text \<open>The hash calculator, the serialisation of the manifest and the payload signer are
  not part of the sources; they are parameters, and each of them may fail. So is the
  memory of the machine: \<open>Allocates\<close> tells the sizes of the buffers it serves.\<close>

record environment =
  RawHashOfData :: "bytes \<Rightarrow> bytes option"
  SerializeToString :: "DeltaArchiveManifest \<Rightarrow> bytes option"
  SignatureBlobLength :: "string list \<Rightarrow> uint64 option"
  SignHashWithKeys :: "bytes \<Rightarrow> string list \<Rightarrow> bytes option"
  SignPayload :: "bytes \<Rightarrow> string list \<Rightarrow> uint64 \<Rightarrow> uint64 \<Rightarrow> uint64 \<Rightarrow> bytes option"
  Allocates :: "nat \<Rightarrow> bool"

text \<open>Modelled from the spec: \<open>HashCalculator::RawHashOfFile\<close> hashes the first bytes of
  the file, as many as asked for (the metadata).\<close>

definition RawHashOfFile :: "environment \<Rightarrow> bytes \<Rightarrow> uint64 \<Rightarrow> bytes option" where
  "RawHashOfFile env file len = RawHashOfData env (take (unat len) file)"

text \<open>Modelled from the spec: \<open>PayloadSigner::AddSignatureToManifest\<close> notes where the
  signatures start, counted from the start of the data blobs, and how long they are.\<close>

definition AddSignatureToManifest :: "uint64 \<Rightarrow> uint64 \<Rightarrow> DeltaArchiveManifest \<Rightarrow> DeltaArchiveManifest" where
  "AddSignatureToManifest signature_blob_offset signature_blob_length m =
     m\<lparr>signatures_offset := Some signature_blob_offset, signatures_size := Some signature_blob_length\<rparr>"

text \<open>Modelled from the spec: \<open>kDeltaMagic\<close> is declared in payload_constants.h, not part
  of the sources; it is the 4-byte literal \<open>CrAU\<close>.\<close>

definition kDeltaMagic :: bytes where
  "kDeltaMagic = [0x43, 0x72, 0x41, 0x55]"

text \<open>\<open>htobe64\<close> and \<open>htobe32\<close> followed by the write of the value: the bytes of the
  value, the most significant one first.\<close>

definition be64 :: "uint64 \<Rightarrow> bytes" where
  "be64 w = map (\<lambda>i. ucast (drop_bit (8 * i) w)) [7, 6, 5, 4, 3, 2, 1, 0]"

definition be32 :: "uint32 \<Rightarrow> bytes" where
  "be32 w = map (\<lambda>i. ucast (drop_bit (8 * i) w)) [3, 2, 1, 0]"

text \<open>A function of the source returns false (\<open>TEST_AND_RETURN_FALSE\<close>) or stops the
  process (\<open>CHECK\<close>, \<open>LOG(FATAL)\<close>, an allocation that cannot be served).\<close>

datatype failure = ReturnedFalse | Aborted

text \<open>\<open>pread\<close>: as many bytes as asked for from the offset, fewer at the end of the
  file; a negative offset is an error.\<close>

definition pread :: "bytes \<Rightarrow> nat \<Rightarrow> uint64 \<Rightarrow> bytes option" where
  "pread file count offset =
     (if sint offset < 0 then None else Some (take count (drop (unat offset) file)))"

subsection \<open>PayloadFile::ReorderDataBlobs\<close>

definition AddOperationHash :: "environment \<Rightarrow> InstallOperation \<Rightarrow> bytes \<Rightarrow> InstallOperation option" where
  "AddOperationHash env operation buf =
     (case RawHashOfData env buf of
        None \<Rightarrow> None
      | Some hash \<Rightarrow> Some (operation\<lparr>data_sha256_hash := Some hash\<rparr>))"

text \<open>The inner loop over the operations of one partition. The state is the size of the
  output so far and the output itself. The buffer of an operation has \<open>data_length\<close>
  bytes: a vector of \<open>2^63\<close> bytes or more cannot be asked for, and one that the memory
  does not serve (\<open>Allocates\<close> says which sizes it serves) is not allocated; both stop the
  process.\<close>

fun reorder_aops ::
  "environment \<Rightarrow> bytes \<Rightarrow> AnnotatedOperation list \<Rightarrow> uint64 \<times> bytes
     \<Rightarrow> failure + (AnnotatedOperation list \<times> uint64 \<times> bytes)" where
  "reorder_aops env in_file [] st = Inr ([], st)"
| "reorder_aops env in_file (aop # rest) (out_file_size, out) =
     (if \<not> has_data_offset (aop_op aop) then
        (case reorder_aops env in_file rest (out_file_size, out) of
           Inl e \<Rightarrow> Inl e
         | Inr (rest', st') \<Rightarrow> Inr (aop # rest', st'))
      else if \<not> has_data_length (aop_op aop) then Inl Aborted
      else if 2 ^ 63 \<le> unat (get_data_length (aop_op aop))
              \<or> \<not> Allocates env (unat (get_data_length (aop_op aop))) then Inl Aborted
      else
        (case pread in_file (unat (get_data_length (aop_op aop))) (get_data_offset (aop_op aop)) of
           None \<Rightarrow> Inl ReturnedFalse
         | Some buf \<Rightarrow>
             if length buf \<noteq> unat (get_data_length (aop_op aop)) then Inl ReturnedFalse
             else
               (case AddOperationHash env (aop_op aop) buf of
                  None \<Rightarrow> Inl ReturnedFalse
                | Some hashed \<Rightarrow>
                    (case reorder_aops env in_file rest
                            (out_file_size + of_nat (length buf), out @ buf) of
                       Inl e \<Rightarrow> Inl e
                     | Inr (rest', st') \<Rightarrow>
                         Inr (aop\<lparr>aop_op := hashed\<lparr>data_offset := Some out_file_size\<rparr>\<rparr> # rest',
                              st')))))"

fun reorder_parts ::
  "environment \<Rightarrow> bytes \<Rightarrow> Partition list \<Rightarrow> uint64 \<times> bytes
     \<Rightarrow> failure + (Partition list \<times> uint64 \<times> bytes)" where
  "reorder_parts env in_file [] st = Inr ([], st)"
| "reorder_parts env in_file (part # rest) st =
     (case reorder_aops env in_file (aops part) st of
        Inl e \<Rightarrow> Inl e
      | Inr (aops', st') \<Rightarrow>
          (case reorder_parts env in_file rest st' of
             Inl e \<Rightarrow> Inl e
           | Inr (rest', st'') \<Rightarrow> Inr (part\<lparr>aops := aops'\<rparr> # rest', st'')))"

text \<open>The blobs file that cannot be opened is \<open>None\<close>. The result is the partitions with
  the new offsets and hashes, and the ordered blobs.\<close>

definition ReorderDataBlobs ::
  "environment \<Rightarrow> Partition list \<Rightarrow> bytes option \<Rightarrow> failure + (Partition list \<times> bytes)" where
  "ReorderDataBlobs env parts data_blobs =
     (case data_blobs of
        None \<Rightarrow> Inl ReturnedFalse
      | Some in_file \<Rightarrow>
          (case reorder_parts env in_file parts (0, []) of
             Inl e \<Rightarrow> Inl e
           | Inr (parts', out_file_size, out) \<Rightarrow> Inr (parts', out)))"

subsection \<open>PayloadFile::WritePayload\<close>

text \<open>The check that the blobs are in order: \<open>None\<close> when it stops the process,
  otherwise the offset after the last blob.\<close>

fun check_aops :: "AnnotatedOperation list \<Rightarrow> uint64 \<Rightarrow> uint64 option" where
  "check_aops [] next_blob_offset = Some next_blob_offset"
| "check_aops (aop # rest) next_blob_offset =
     (if \<not> has_data_offset (aop_op aop) then check_aops rest next_blob_offset
      else if get_data_offset (aop_op aop) \<noteq> next_blob_offset then None
      else check_aops rest (next_blob_offset + get_data_length (aop_op aop)))"

fun check_parts :: "Partition list \<Rightarrow> uint64 \<Rightarrow> uint64 option" where
  "check_parts [] next_blob_offset = Some next_blob_offset"
| "check_parts (part # rest) next_blob_offset =
     (case check_aops (aops part) next_blob_offset of
        None \<Rightarrow> None
      | Some n \<Rightarrow> check_parts rest n)"

definition partition_update_of :: "Partition \<Rightarrow> PartitionUpdate" where
  "partition_update_of part =
     (let has_tree = \<not> IsEmpty (verity part) \<and> num_blocks (verity_hash_tree_extent (verity part)) \<noteq> 0;
          has_fec = \<not> IsEmpty (verity part) \<and> num_blocks (verity_fec_extent (verity part)) \<noteq> 0
      in \<lparr>partition_name = part_name part,
          update_version = (if version part \<noteq> [] then Some (version part) else None),
          estimate_cow_size =
            (if 0 < cow_size (cow_info part) then Some (cow_size (cow_info part)) else None),
          estimate_op_count_max =
            (if 0 < op_count_max (cow_info part) then Some (op_count_max (cow_info part)) else None),
          run_postinstall = (if run (postinstall part) then Some True else None),
          postinstall_path =
            (if run (postinstall part) \<and> config_path (postinstall part) \<noteq> []
             then Some (config_path (postinstall part)) else None),
          filesystem_type =
            (if run (postinstall part) \<and> config_filesystem_type (postinstall part) \<noteq> []
             then Some (config_filesystem_type (postinstall part)) else None),
          postinstall_optional =
            (if run (postinstall part) then Some (optional (postinstall part)) else None),
          hash_tree_data_extent =
            (if has_tree then Some (verity_hash_tree_data_extent (verity part)) else None),
          hash_tree_extent =
            (if has_tree then Some (verity_hash_tree_extent (verity part)) else None),
          hash_tree_algorithm =
            (if has_tree then Some (verity_hash_tree_algorithm (verity part)) else None),
          hash_tree_salt =
            (if has_tree \<and> verity_hash_tree_salt (verity part) \<noteq> []
             then Some (verity_hash_tree_salt (verity part)) else None),
          fec_data_extent =
            (if has_fec then Some (verity_fec_data_extent (verity part)) else None),
          fec_extent = (if has_fec then Some (verity_fec_extent (verity part)) else None),
          fec_roots = (if has_fec then Some (verity_fec_roots (verity part)) else None),
          operations = map aop_op (aops part),
          merge_operations = cow_merge_sequence part,
          old_partition_info =
            (if info_size (old_info part) \<noteq> None \<or> info_hash (old_info part) \<noteq> None
             then Some (old_info part) else None),
          new_partition_info =
            (if info_size (new_info part) \<noteq> None \<or> info_hash (new_info part) \<noteq> None
             then Some (new_info part) else None)\<rparr>)"

text \<open>The static \<open>WritePayload\<close>, which writes the file. It gives the bytes of the file
  and the metadata size. The data blobs are copied in pieces of one megabyte, which
  appends them all; the ordered blobs file that cannot be opened is \<open>None\<close>.\<close>

definition WritePayload_static ::
  "environment \<Rightarrow> bytes option \<Rightarrow> string \<Rightarrow> uint64 \<Rightarrow> DeltaArchiveManifest
     \<Rightarrow> failure + (bytes \<times> uint64)" where
  "WritePayload_static env ordered_blobs private_key_path major m =
     (case SerializeToString env m of
        None \<Rightarrow> Inl ReturnedFalse
      | Some serialized_manifest \<Rightarrow>
          let metadata_size0 = of_nat (length kDeltaMagic) + 2 * 8 + of_nat (length serialized_manifest);
              file1 = kDeltaMagic;
              file2 = file1 @ be64 major;
              file3 = file2 @ be64 (of_nat (length serialized_manifest));
              signature_blob_length = get_signatures_size m;
              file4 = file3 @ be32 (ucast signature_blob_length);
              metadata_size = metadata_size0 + 4;
              file5 = file4 @ serialized_manifest;
              signed = (if private_key_path \<noteq> [] then
                          (case RawHashOfFile env file5 metadata_size of
                             None \<Rightarrow> None
                           | Some metadata_hash \<Rightarrow>
                               (case SignHashWithKeys env metadata_hash [private_key_path] of
                                  None \<Rightarrow> None
                                | Some metadata_signature \<Rightarrow> Some (file5 @ metadata_signature)))
                        else Some file5)
          in case signed of
               None \<Rightarrow> Inl ReturnedFalse
             | Some file6 \<Rightarrow>
                 (case ordered_blobs of
                    None \<Rightarrow> Inl ReturnedFalse
                  | Some blobs \<Rightarrow>
                      let file7 = file6 @ blobs
                      in if private_key_path \<noteq> [] then
                           (case SignPayload env file7 [private_key_path] metadata_size
                                   signature_blob_length
                                   (metadata_size + signature_blob_length + get_signatures_offset m) of
                              None \<Rightarrow> Inl ReturnedFalse
                            | Some signature \<Rightarrow> Inr (file7 @ signature, metadata_size))
                         else Inr (file7, metadata_size)))"

text \<open>The member \<open>WritePayload\<close>. It does not look at the result of the static one: when
  the file could not be written it returns true all the same, the file is incomplete and
  the size was not given. The result holds the manifest as it was written and the outcome
  of the static \<open>WritePayload\<close>.\<close>

record written =
  written_manifest :: DeltaArchiveManifest
  written_part_vec :: "Partition list"
  written_file :: "failure + (bytes \<times> uint64)"

definition WritePayload ::
  "environment \<Rightarrow> PayloadFile \<Rightarrow> bytes option \<Rightarrow> string \<Rightarrow> failure + written" where
  "WritePayload env pf data_blobs private_key_path =
     (case ReorderDataBlobs env (part_vec pf) data_blobs of
        Inl e \<Rightarrow> Inl e
      | Inr (parts, ordered_blobs) \<Rightarrow>
          (case check_parts parts 0 of
             None \<Rightarrow> Inl Aborted
           | Some next_blob_offset \<Rightarrow>
               let m1 = (manifest pf)\<lparr>partitions := map partition_update_of parts\<rparr>;
                   signature_length =
                     (if private_key_path \<noteq> [] then SignatureBlobLength env [private_key_path]
                      else Some 0)
               in case signature_length of
                    None \<Rightarrow> Inl ReturnedFalse
                  | Some signature_blob_length \<Rightarrow>
                      let m2 = (if private_key_path \<noteq> []
                                then AddSignatureToManifest next_blob_offset signature_blob_length m1
                                else m1)
                      in Inr \<lparr>written_manifest = m2, written_part_vec = parts,
                               written_file = WritePayload_static env (Some ordered_blobs)
                                 private_key_path (major_version pf) m2\<rparr>))"

subsection \<open>The data offsets of a manifest, in the words of the specification\<close>

definition emitted_operations :: "DeltaArchiveManifest \<Rightarrow> InstallOperation list" where
  "emitted_operations m = concat (map operations (partitions m))"

text \<open>The sum of the lengths of the operations with a blob among the first \<open>i\<close>.\<close>

definition blob_bytes_before :: "InstallOperation list \<Rightarrow> nat \<Rightarrow> uint64" where
  "blob_bytes_before ops i = sum_list (map get_data_length (filter has_data_offset (take i ops)))"

definition offsets_are_cumulative :: "InstallOperation list \<Rightarrow> bool" where
  "offsets_are_cumulative ops =
     (\<forall>i < length ops. has_data_offset (ops ! i) \<longrightarrow>
        get_data_offset (ops ! i) = blob_bytes_before ops i)"

definition offsets_strictly_increase :: "InstallOperation list \<Rightarrow> bool" where
  "offsets_strictly_increase ops =
     (\<forall>i j. i < j \<and> j < length ops \<and> has_data_offset (ops ! i) \<and> has_data_offset (ops ! j) \<longrightarrow>
        get_data_offset (ops ! i) < get_data_offset (ops ! j))"

definition total_blob_bytes :: "InstallOperation list \<Rightarrow> nat" where
  "total_blob_bytes ops = sum_list (map (\<lambda>operation. unat (get_data_length operation)) (filter has_data_offset ops))"

subsection \<open>The framing of a payload, in the words of the specification\<close>

text \<open>The byte stream of the specification: the magic, the major version in 8 bytes, the
  length of the manifest in 8 bytes, the length of the metadata signature in 4 bytes, the
  serialised manifest, the metadata signature, the data blobs and the payload
  signature.\<close>

definition framed_payload :: "uint64 \<Rightarrow> bytes \<Rightarrow> bytes \<Rightarrow> bytes \<Rightarrow> bytes \<Rightarrow> bytes" where
  "framed_payload major serialized_manifest metadata_signature blobs signature =
     kDeltaMagic @ be64 major @ be64 (of_nat (length serialized_manifest))
       @ be32 (of_nat (length metadata_signature)) @ serialized_manifest
       @ metadata_signature @ blobs @ signature"

subsection \<open>Example payloads\<close>

text \<open>A stand-in for the absent helpers: the empty hash, a manifest serialised as its two
  signature fields, signatures of one byte, and memory for buffers below \<open>2^32\<close> bytes. A partition with nothing but its name and
  operations, and a \<open>REPLACE\<close> operation with a blob.\<close>

definition toy_env :: environment where
  "toy_env = \<lparr>RawHashOfData = (\<lambda>buf. Some []),
     SerializeToString = (\<lambda>m. Some (be64 (get_signatures_offset m) @ be64 (get_signatures_size m))),
     SignatureBlobLength = (\<lambda>keys. Some 1),
     SignHashWithKeys = (\<lambda>hash keys. Some [0xAA]),
     SignPayload = (\<lambda>file keys metadata_size signatures_size signatures_offset. Some [0xBB]),
     Allocates = (\<lambda>size. size < 2 ^ 32)\<rparr>"

definition no_extent :: Extent where
  "no_extent = \<lparr>start_block = 0, num_blocks = 0\<rparr>"

definition bare_partition :: "string \<Rightarrow> AnnotatedOperation list \<Rightarrow> Partition" where
  "bare_partition n ops =
     \<lparr>part_name = n, aops = ops, cow_merge_sequence = [],
      postinstall = \<lparr>run = False, config_path = [], config_filesystem_type = [], optional = False\<rparr>,
      verity = \<lparr>verity_hash_tree_data_extent = no_extent, verity_hash_tree_extent = no_extent,
                verity_hash_tree_algorithm = [], verity_hash_tree_salt = [],
                verity_fec_data_extent = no_extent, verity_fec_extent = no_extent,
                verity_fec_roots = 0\<rparr>,
      version = [], cow_info = \<lparr>cow_size = 0, op_count_max = 0\<rparr>,
      old_info = \<lparr>info_size = None, info_hash = None\<rparr>,
      new_info = \<lparr>info_size = None, info_hash = None\<rparr>\<rparr>"

definition blob_op :: "uint64 \<Rightarrow> uint64 \<Rightarrow> InstallOperation" where
  "blob_op off len = \<lparr>op_type = REPLACE, data_offset = Some off, data_length = Some len,
     src_extents = [], dst_extents = [], data_sha256_hash = None\<rparr>"

definition payload_of :: "AnnotatedOperation list \<Rightarrow> PayloadFile" where
  "payload_of ops = \<lparr>major_version = 2,
     manifest = \<lparr>partitions = [], signatures_offset = None, signatures_size = None\<rparr>,
     part_vec = [bare_partition ''system'' ops]\<rparr>"

definition zero_blob_payload :: PayloadFile where
  "zero_blob_payload = payload_of [\<lparr>aop_name = ''first'', aop_op = blob_op 0 0\<rparr>,
                                   \<lparr>aop_name = ''second'', aop_op = blob_op 0 0\<rparr>]"

definition two_blob_payload :: PayloadFile where
  "two_blob_payload = payload_of [\<lparr>aop_name = ''first'', aop_op = blob_op 2 2\<rparr>,
                                  \<lparr>aop_name = ''second'', aop_op = blob_op 0 2\<rparr>]"

definition one_blob_payload :: PayloadFile where
  "one_blob_payload = payload_of [\<lparr>aop_name = ''first'', aop_op = blob_op 0 3\<rparr>]"

text \<open>Manifests for the static \<open>WritePayload\<close>: one without signature fields, one that
  carries a signature size of 2 and one as the member \<open>WritePayload\<close> hands it over for a
  signed payload with 3 bytes of blobs.\<close>

definition plain_manifest :: DeltaArchiveManifest where
  "plain_manifest = \<lparr>partitions = [], signatures_offset = None, signatures_size = None\<rparr>"

definition sized_manifest :: DeltaArchiveManifest where
  "sized_manifest = \<lparr>partitions = [], signatures_offset = None, signatures_size = Some 2\<rparr>"

definition signed_manifest :: DeltaArchiveManifest where
  "signed_manifest = \<lparr>partitions = [], signatures_offset = Some 3, signatures_size = Some 1\<rparr>"

section \<open>Dynamic partition control (aosp/dynamic_partition_control_android.cc)\<close>

text \<open>Only the unit test of this component is part of the sources. Its operations are
  modelled from the specification, with the details that the test cases fix.\<close>

subsection \<open>Skipping the blocks that a copy leaves where they are\<close>

definition blocks_of :: "Extent list \<Rightarrow> uint64 list" where
  "blocks_of extents =
     concat (map (\<lambda>e. map (\<lambda>i. start_block e + of_nat i) [0..<unat (num_blocks e)]) extents)"

fun append_block :: "Extent list \<Rightarrow> uint64 \<Rightarrow> Extent list" where
  "append_block [] b = [\<lparr>start_block = b, num_blocks = 1\<rparr>]"
| "append_block (e # es) b =
     (let l = last (e # es)
      in if start_block l + num_blocks l = b
         then butlast (e # es) @ [l\<lparr>num_blocks := num_blocks l + 1\<rparr>]
         else (e # es) @ [\<lparr>start_block = b, num_blocks = 1\<rparr>])"

definition extents_of :: "uint64 list \<Rightarrow> Extent list" where
  "extents_of blocks = foldl append_block [] blocks"

text \<open>Modelled from the spec: \<open>OptimizeSourceCopyOperation\<close>, which the controller calls, is
  missing. A \<open>SOURCE_COPY\<close> whose source and destination are the same extents becomes an
  operation with no extents. The test \<open>OptimizeOperationTest\<close> fixes the rest: the blocks
  are compared one by one and the ones that stay in place are left out; sides of
  different length cannot be optimised; with no block to leave out there is nothing to
  optimise, except for the operation without blocks.\<close>

definition OptimizeSourceCopyOperation :: "InstallOperation \<Rightarrow> InstallOperation option" where
  "OptimizeSourceCopyOperation operation =
     (let s = blocks_of (src_extents operation);
          d = blocks_of (dst_extents operation);
          moved = filter (\<lambda>(a, b). a \<noteq> b) (zip s d)
      in if length s \<noteq> length d then None
         else if s \<noteq> [] \<and> length moved = length s then None
         else Some (operation\<lparr>src_extents := extents_of (map fst moved),
                              dst_extents := extents_of (map snd moved)\<rparr>))"

text \<open>Modelled from the spec: the metadata of the super partition (liblp is not part of
  the sources): its size, the groups with their maximum size and the partitions with
  their group and size, in bytes.\<close>

record lp_group =
  lpg_name :: string
  lpg_maximum_size :: nat

record lp_partition =
  lpp_name :: string
  lpp_group :: string
  lpp_size :: nat

record lp_metadata =
  super_size :: nat
  lp_groups :: "lp_group list"
  lp_partitions :: "lp_partition list"

text \<open>Modelled from the spec: the state of \<open>DynamicPartitionControlAndroid\<close> that the
  claims are about: the feature flag of Virtual A/B, whether the target supports
  snapshots, the mapped devices of the target slot, the two slots of the update, the
  metadata read from the source slot (\<open>None\<close> when it cannot be read) and the metadata
  stored for the target slot.\<close>

record dynamic_control =
  virtual_ab_enabled :: bool
  target_supports_snapshot :: bool
  mapped_devices :: "string list"
  source_slot :: nat
  target_slot :: nat
  source_metadata :: "lp_metadata option"
  stored_metadata :: "lp_metadata option"

text \<open>Modelled from the spec: the slot suffixes \<open>_a\<close>, \<open>_b\<close> of the slots 0 and 1.\<close>

definition SlotSuffixForSlotNumber :: "nat \<Rightarrow> string" where
  "SlotSuffixForSlotNumber slot = [CHR ''_'', char_of (97 + slot)]"

text \<open>Modelled from the spec: \<open>OptimizeOperation\<close>. Only a \<open>SOURCE_COPY\<close> is optimised, only
  with Virtual A/B and snapshots on the target, and only for a dynamic partition of the
  target slot, one that is among the mapped devices; static partitions, as on retrofit
  devices, are left alone.\<close>

definition OptimizeOperation ::
  "dynamic_control \<Rightarrow> string \<Rightarrow> InstallOperation \<Rightarrow> InstallOperation option" where
  "OptimizeOperation dc name operation =
     (case op_type operation of
        SOURCE_COPY \<Rightarrow>
          if target_supports_snapshot dc \<and> virtual_ab_enabled dc
             \<and> name @ SlotSuffixForSlotNumber (target_slot dc) \<in> set (mapped_devices dc)
          then OptimizeSourceCopyOperation operation
          else None
      | _ \<Rightarrow> None)"

subsection \<open>Preparing the partitions of the target slot\<close>

text \<open>Modelled from the spec: the dynamic partition metadata of a manifest: the groups
  with their size and the names of their partitions, and the new size of each
  partition.\<close>

record dp_group =
  dpg_name :: string
  dpg_size :: nat
  dpg_partition_names :: "string list"

record dp_manifest =
  dp_groups :: "dp_group list"
  dp_partition_sizes :: "(string \<times> nat) list"

definition requested_size :: "dp_manifest \<Rightarrow> string \<Rightarrow> nat" where
  "requested_size m n = (case map_of (dp_partition_sizes m) n of None \<Rightarrow> 0 | Some s \<Rightarrow> s)"

definition has_suffix :: "string \<Rightarrow> string \<Rightarrow> bool" where
  "has_suffix sfx s = (length sfx \<le> length s \<and> drop (length s - length sfx) s = sfx)"

definition delete_groups_with_suffix :: "string \<Rightarrow> lp_metadata \<Rightarrow> lp_metadata" where
  "delete_groups_with_suffix sfx md =
     md\<lparr>lp_groups := filter (\<lambda>g. \<not> has_suffix sfx (lpg_name g)) (lp_groups md),
        lp_partitions := filter (\<lambda>p. \<not> has_suffix sfx (lpp_group p)) (lp_partitions md)\<rparr>"

definition group_usage :: "lp_metadata \<Rightarrow> string \<Rightarrow> nat" where
  "group_usage md g = sum_list (map lpp_size (filter (\<lambda>p. lpp_group p = g) (lp_partitions md)))"

definition total_usage :: "lp_metadata \<Rightarrow> nat" where
  "total_usage md = sum_list (map lpp_size (lp_partitions md))"

text \<open>Adding the partitions of one group with their requested size; a partition that
  takes the group over its maximum size is refused.\<close>

fun add_partitions ::
  "dp_manifest \<Rightarrow> string \<Rightarrow> dp_group \<Rightarrow> string list \<Rightarrow> lp_metadata \<Rightarrow> lp_metadata option" where
  "add_partitions m sfx g [] md = Some md"
| "add_partitions m sfx g (n # ns) md =
     (let md' = md\<lparr>lp_partitions := lp_partitions md @
                   [\<lparr>lpp_name = n @ sfx, lpp_group = dpg_name g @ sfx,
                     lpp_size = requested_size m n\<rparr>]\<rparr>
      in if dpg_size g < group_usage md' (dpg_name g @ sfx) then None
         else add_partitions m sfx g ns md')"

fun add_groups :: "dp_manifest \<Rightarrow> string \<Rightarrow> dp_group list \<Rightarrow> lp_metadata \<Rightarrow> lp_metadata option" where
  "add_groups m sfx [] md = Some md"
| "add_groups m sfx (g # gs) md =
     (case add_partitions m sfx g (dpg_partition_names g)
             (md\<lparr>lp_groups := lp_groups md @
                   [\<lparr>lpg_name = dpg_name g @ sfx, lpg_maximum_size = dpg_size g\<rparr>]\<rparr>) of
        None \<Rightarrow> None
      | Some md' \<Rightarrow> add_groups m sfx gs md')"

text \<open>Modelled from the spec: \<open>UpdatePartitionMetadata\<close>. The groups of the target slot are
  replaced by the groups of the manifest. The update is refused when the sizes of the
  groups together exceed what one slot may take, when a group exceeds its maximum, or
  when the partitions do not fit into the super partition. One slot may take half of the
  super partition, for two slots must coexist; the test
  \<open>RecoveryErrorShouldDeleteSource\<close> has an update on a Virtual A/B device go through with
  one slot of space in the super partition, so with Virtual A/B the whole of it counts.\<close>

definition allocatable_space :: "bool \<Rightarrow> lp_metadata \<Rightarrow> nat" where
  "allocatable_space virtual_ab md = (if virtual_ab then super_size md else super_size md div 2)"

definition UpdatePartitionMetadata ::
  "bool \<Rightarrow> lp_metadata \<Rightarrow> nat \<Rightarrow> dp_manifest \<Rightarrow> lp_metadata option" where
  "UpdatePartitionMetadata virtual_ab builder target m =
     (let sfx = SlotSuffixForSlotNumber target;
          md = delete_groups_with_suffix sfx builder;
          total_size = sum_list (map dpg_size (dp_groups m))
      in if allocatable_space virtual_ab md < total_size then None
         else (case add_groups m sfx (dp_groups m) md of
                 None \<Rightarrow> None
               | Some md' \<Rightarrow> if super_size md' < total_usage md' then None else Some md'))"

text \<open>Modelled from the spec: \<open>prepare_partitions_for_update\<close>. The test
  \<open>ApplyingToCurrentSlot\<close> has it refuse the slot that is booted. Otherwise the metadata
  of the source slot is read, the partitions of the source slot are dropped from it when
  the caller asks for that, the metadata is updated for the target slot and stored.\<close>

definition PrepareDynamicPartitionsForUpdate ::
  "dynamic_control \<Rightarrow> nat \<Rightarrow> nat \<Rightarrow> dp_manifest \<Rightarrow> bool \<Rightarrow> bool \<times> dynamic_control" where
  "PrepareDynamicPartitionsForUpdate dc source target m delete_source =
     (case source_metadata dc of
        None \<Rightarrow> (False, dc)
      | Some loaded \<Rightarrow>
          let builder = (if delete_source
                         then delete_groups_with_suffix (SlotSuffixForSlotNumber source) loaded
                         else loaded)
          in case UpdatePartitionMetadata (virtual_ab_enabled dc) builder target m of
               None \<Rightarrow> (False, dc)
             | Some md \<Rightarrow> (True, dc\<lparr>stored_metadata := Some md\<rparr>))"

definition PreparePartitionsForUpdate ::
  "dynamic_control \<Rightarrow> nat \<Rightarrow> nat \<Rightarrow> dp_manifest \<Rightarrow> bool \<Rightarrow> bool \<times> dynamic_control" where
  "PreparePartitionsForUpdate dc source target m delete_source =
     (let dc1 = dc\<lparr>source_slot := source, target_slot := target\<rparr>
      in if target = source then (False, dc1)
         else PrepareDynamicPartitionsForUpdate dc1 source target m delete_source)"

subsection \<open>The cases of the unit test\<close>

definition GiB :: nat where
  "GiB = 2 ^ 30"

definition MiB :: nat where
  "MiB = 2 ^ 20"

text \<open>The source metadata of the group tests, for the slots 0 and 1, in a super partition
  of 10 GiB and 1 MiB.\<close>

definition group_test_metadata :: lp_metadata where
  "group_test_metadata =
     \<lparr>super_size = 10 * GiB + MiB,
      lp_groups = [\<lparr>lpg_name = ''android_a'', lpg_maximum_size = 3 * GiB\<rparr>,
                   \<lparr>lpg_name = ''oem_a'', lpg_maximum_size = 2 * GiB\<rparr>,
                   \<lparr>lpg_name = ''android_b'', lpg_maximum_size = 3 * GiB\<rparr>,
                   \<lparr>lpg_name = ''oem_b'', lpg_maximum_size = 2 * GiB\<rparr>],
      lp_partitions = [\<lparr>lpp_name = ''system_a'', lpp_group = ''android_a'', lpp_size = 2 * GiB\<rparr>,
                       \<lparr>lpp_name = ''vendor_a'', lpp_group = ''oem_a'', lpp_size = GiB\<rparr>,
                       \<lparr>lpp_name = ''system_b'', lpp_group = ''android_b'', lpp_size = 0\<rparr>,
                       \<lparr>lpp_name = ''vendor_b'', lpp_group = ''oem_b'', lpp_size = 0\<rparr>]\<rparr>"

definition group_manifest :: "nat \<Rightarrow> nat \<Rightarrow> nat \<Rightarrow> nat \<Rightarrow> dp_manifest" where
  "group_manifest android_size system_size oem_size vendor_size =
     \<lparr>dp_groups = [\<lparr>dpg_name = ''android'', dpg_size = android_size, dpg_partition_names = [''system'']\<rparr>,
                   \<lparr>dpg_name = ''oem'', dpg_size = oem_size, dpg_partition_names = [''vendor'']\<rparr>],
      dp_partition_sizes = [(''system'', system_size), (''vendor'', vendor_size)]\<rparr>"

text \<open>A device with Virtual A/B and one slot of space in the super partition, as in
  \<open>RecoveryErrorShouldDeleteSource\<close>, and the manifest of that test, with one group.\<close>

definition one_slot_device :: dynamic_control where
  "one_slot_device =
     \<lparr>virtual_ab_enabled = True, target_supports_snapshot = False, mapped_devices = [],
      source_slot = 0, target_slot = 0,
      source_metadata = Some \<lparr>super_size = 5 * GiB + MiB,
        lp_groups = [\<lparr>lpg_name = ''group_a'', lpg_maximum_size = 5 * GiB\<rparr>],
        lp_partitions = [\<lparr>lpp_name = ''system_a'', lpp_group = ''group_a'', lpp_size = 2 * GiB\<rparr>,
                         \<lparr>lpp_name = ''vendor_a'', lpp_group = ''group_a'', lpp_size = GiB\<rparr>]\<rparr>,
      stored_metadata = None\<rparr>"

definition one_group_manifest :: dp_manifest where
  "one_group_manifest =
     \<lparr>dp_groups = [\<lparr>dpg_name = ''group'', dpg_size = 5 * GiB,
                    dpg_partition_names = [''system'', ''vendor'']\<rparr>],
      dp_partition_sizes = [(''system'', 3 * GiB), (''vendor'', GiB)]\<rparr>"

definition launch_device :: dynamic_control where
  "launch_device =
     \<lparr>virtual_ab_enabled = False, target_supports_snapshot = False, mapped_devices = [],
      source_slot = 0, target_slot = 0,
      source_metadata = Some group_test_metadata, stored_metadata = None\<rparr>"

definition snapshot_device :: dynamic_control where
  "snapshot_device =
     \<lparr>virtual_ab_enabled = True, target_supports_snapshot = True, mapped_devices = [''foo_b''],
      source_slot = 0, target_slot = 1,
      source_metadata = None, stored_metadata = None\<rparr>"

definition copy_op :: "Extent list \<Rightarrow> Extent list \<Rightarrow> InstallOperation" where
  "copy_op src dst = \<lparr>op_type = SOURCE_COPY, data_offset = None, data_length = None,
     src_extents = src, dst_extents = dst, data_sha256_hash = None\<rparr>"

section \<open>Proofs: keys of the file store\<close>

lemma char_in_range:
  "c \<in> set (map char_of [a..<b]) \<longleftrightarrow> a \<le> (of_char c :: nat) \<and> of_char c < b" if "b \<le> 256"
proof
  assume "c \<in> set (map char_of [a..<b])"
  then obtain n where n: "a \<le> n" "n < b" "c = char_of n" by auto
  with that have "of_char c = n" by simp
  with n show "a \<le> (of_char c :: nat) \<and> of_char c < b" by simp
next
  assume "a \<le> (of_char c :: nat) \<and> of_char c < b"
  then have "of_char c \<in> set [a..<b]" by simp
  then have "char_of (of_char c :: nat) \<in> char_of ` set [a..<b]" by (rule imageI)
  then show "c \<in> set (map char_of [a..<b])" by simp
qed

lemma upper_case_letters: "map char_of [65..<91::nat] = ''ABCDEFGHIJKLMNOPQRSTUVWXYZ''"
  by code_simp

lemma lower_case_letters: "map char_of [97..<123::nat] = ''abcdefghijklmnopqrstuvwxyz''"
  by code_simp

lemma decimal_digits: "map char_of [48..<58::nat] = ''0123456789''"
  by code_simp

lemma key_alphabet_ranges:
  "key_alphabet = map char_of [65..<91::nat] @ map char_of [97..<123::nat]
     @ map char_of [48..<58::nat] @ ''_-/''"
  unfolding upper_case_letters lower_case_letters decimal_digits key_alphabet_def by simp

lemma key_char_alphabet:
  "(isalpha c \<or> isdigit c \<or> c = CHR ''_'' \<or> c = CHR ''-'' \<or> c = kKeySeparator)
     \<longleftrightarrow> c \<in> set key_alphabet"
proof -
  define n where "n = (of_char c :: nat)"
  have u: "c \<in> set (map char_of [65..<91::nat]) \<longleftrightarrow> 65 \<le> n \<and> n < 91"
    unfolding n_def by (rule char_in_range) simp
  have l: "c \<in> set (map char_of [97..<123::nat]) \<longleftrightarrow> 97 \<le> n \<and> n < 123"
    unfolding n_def by (rule char_in_range) simp
  have d: "c \<in> set (map char_of [48..<58::nat]) \<longleftrightarrow> 48 \<le> n \<and> n < 58"
    unfolding n_def by (rule char_in_range) simp
  have o: "c \<in> set ''_-/'' \<longleftrightarrow> c = CHR ''_'' \<or> c = CHR ''-'' \<or> c = CHR ''/''"
    by auto
  have k: "(isalpha c \<or> isdigit c \<or> c = CHR ''_'' \<or> c = CHR ''-'' \<or> c = kKeySeparator)
      \<longleftrightarrow> (65 \<le> n \<and> n \<le> 90 \<or> 97 \<le> n \<and> n \<le> 122) \<or> (48 \<le> n \<and> n \<le> 57)
      \<or> c = CHR ''_'' \<or> c = CHR ''-'' \<or> c = CHR ''/''"
    unfolding isalpha_def isdigit_def kKeySeparator_def Let_def n_def ..
  show ?thesis
    unfolding key_alphabet_ranges set_append Un_iff u l d o k by arith
qed

lemma key_chars_ok_iff: "key_chars_ok key \<longleftrightarrow> (\<forall>c \<in> set key. c \<in> set key_alphabet)"
proof (induction key)
  case Nil
  show ?case by simp
next
  case (Cons c cs)
  show ?case
    using Cons.IH key_char_alphabet [of c] by (simp del: set_simps) simp
qed

lemma GetFileNameForKey_valid: "fst (GetFileNameForKey fs key) \<noteq> None \<longleftrightarrow> spec_valid_key key"
  by (simp add: GetFileNameForKey_def spec_valid_key_def key_chars_ok_iff list_all_iff
      split: prod.splits)

lemma GetFileNameForKey_invalid:
  "\<not> spec_valid_key key \<Longrightarrow> GetFileNameForKey fs key = (None, fs)"
  by (auto simp: GetFileNameForKey_def spec_valid_key_def key_chars_ok_iff list_all_iff)

text \<open>
  Claim C6. In the file store, reading, writing, testing and deleting a key fail when the
  key is empty or has a character outside the class of letters, digits, underscore,
  hyphen and slash; the store is then left as it was, and the record of file system calls
  with it: no file is read, written or removed, and no call is made at all.
\<close>

theorem invalid_key_is_rejected_without_file_access:
  assumes "key = [] \<or> (\<exists>c \<in> set key. c \<notin> set key_alphabet)"
  shows "GetKey fs key = (None, fs) \<and> SetKey fs key v = (False, fs)
    \<and> KeyExists fs key = (False, fs) \<and> DeleteKey fs key = (False, fs)"
proof -
  from assms have "\<not> spec_valid_key key"
    by (auto simp: spec_valid_key_def list_all_iff)
  then have "GetFileNameForKey fs key = (None, fs)"
    by (rule GetFileNameForKey_invalid)
  then show ?thesis
    by (simp add: GetKey_def SetKey_def KeyExists_def DeleteKey_def)
qed

theorem invalid_key_is_rejected_witness:
  "(''update.state'' = [] \<or> (\<exists>c \<in> set ''update.state''. c \<notin> set key_alphabet))
   \<and> GetKey \<lparr>prefs_dir = Some (Dir fmempty), tmp_dir = None, calls = []\<rparr> ''update.state''
       = (None, \<lparr>prefs_dir = Some (Dir fmempty), tmp_dir = None, calls = []\<rparr>)
   \<and> SetKey \<lparr>prefs_dir = Some (Dir fmempty), tmp_dir = None, calls = []\<rparr> ''update.state'' ''1''
       = (False, \<lparr>prefs_dir = Some (Dir fmempty), tmp_dir = None, calls = []\<rparr>)
   \<and> KeyExists \<lparr>prefs_dir = Some (Dir fmempty), tmp_dir = None, calls = []\<rparr> ''update.state''
       = (False, \<lparr>prefs_dir = Some (Dir fmempty), tmp_dir = None, calls = []\<rparr>)
   \<and> DeleteKey \<lparr>prefs_dir = Some (Dir fmempty), tmp_dir = None, calls = []\<rparr> ''update.state''
       = (False, \<lparr>prefs_dir = Some (Dir fmempty), tmp_dir = None, calls = []\<rparr>)"
proof -
  have h: "''update.state'' = [] \<or> (\<exists>c \<in> set ''update.state''. c \<notin> set key_alphabet)"
    by (simp add: key_alphabet_def)
  show ?thesis
    using h invalid_key_is_rejected_without_file_access [OF h] by blast
qed

section \<open>Proofs: integers and booleans as text\<close>

declare dec_digits.simps [simp del]

lemma of_char_digit_char: "d < 10 \<Longrightarrow> (of_char (digit_char d) :: nat) = 48 + d"
  by (simp add: digit_char_def)

lemma dec_digits_chars: "c \<in> set (dec_digits n) \<Longrightarrow> \<exists>d<10. c = digit_char d"
proof (induction n rule: dec_digits.induct)
  case (1 n)
  show ?case
  proof (cases "n < 10")
    case True
    with "1.prems" show ?thesis by (subst (asm) dec_digits.simps) auto
  next
    case False
    with "1.prems" have "c \<in> set (dec_digits (n div 10)) \<or> c = digit_char (n mod 10)"
      by (subst (asm) dec_digits.simps) auto
    then show ?thesis
    proof
      assume "c \<in> set (dec_digits (n div 10))"
      with False "1.IH" show ?thesis by simp
    next
      assume "c = digit_char (n mod 10)"
      moreover have "n mod 10 < 10" by simp
      ultimately show ?thesis by blast
    qed
  qed
qed

lemma dec_digits_nonempty: "dec_digits n \<noteq> []"
  by (subst dec_digits.simps) simp

lemma digit_value_digit_char: "d < 10 \<Longrightarrow> digit_value (digit_char d) = d"
  by (simp add: digit_value_def of_char_digit_char)

lemma dec_digits_value: "foldl (\<lambda>a c. a * 10 + digit_value c) 0 (dec_digits n) = n"
proof (induction n rule: dec_digits.induct)
  case (1 n)
  show ?case
  proof (cases "n < 10")
    case True
    then show ?thesis by (subst dec_digits.simps) (simp add: digit_value_digit_char)
  next
    case False
    with "1.IH" show ?thesis
      by (subst dec_digits.simps) (simp add: digit_value_digit_char)
  qed
qed

lemma dec_digits_are_digits: "c \<in> set (dec_digits n) \<Longrightarrow> is_digit_of 10 c"
  using dec_digits_chars [of c n] by (auto simp: is_digit_of_def digit_value_digit_char)

lemma dec_digits_not_space: "c \<in> set (dec_digits n) \<Longrightarrow> \<not> isspace c"
  using dec_digits_chars [of c n] by (auto simp: isspace_def of_char_digit_char)

lemma dec_digits_code: "c \<in> set (dec_digits n) \<Longrightarrow> 48 \<le> (of_char c :: nat) \<and> (of_char c :: nat) \<le> 57"
  using dec_digits_chars [of c n] by (auto simp: of_char_digit_char)

lemma Trim_id:
  assumes "s \<noteq> []" "\<not> isspace (hd s)" "\<not> isspace (last s)"
  shows "Trim s = s"
proof -
  from assms have 1: "dropWhile isspace s = s" by (cases s) simp_all
  from assms have "rev s \<noteq> []" "\<not> isspace (hd (rev s))" by (simp_all add: hd_rev)
  then have 2: "dropWhile isspace (rev s) = rev s" by (cases "rev s") simp_all
  show ?thesis by (simp add: Trim_def 1 2)
qed


lemma dec_digits_takeWhile_digits: "takeWhile (is_digit_of 10) (dec_digits n) = dec_digits n"
  by (simp add: takeWhile_eq_all_conv dec_digits_are_digits)

lemma dec_digits_dropWhile_digits: "dropWhile (is_digit_of 10) (dec_digits n) = []"
  by (simp add: dropWhile_eq_Nil_conv dec_digits_are_digits)

lemma hd_dec_digits: "hd (dec_digits n) \<in> set (dec_digits n)"
  by (simp add: dec_digits_nonempty)

lemma dec_digits_no_hex_prefix: "\<not> has_hex_prefix (dec_digits n)"
proof
  assume "has_hex_prefix (dec_digits n)"
  then obtain c0 c1 cs where s: "dec_digits n = c0 # c1 # cs" and x: "c1 = CHR ''x'' \<or> c1 = CHR ''X''"
    by (auto simp: has_hex_prefix_def split: list.splits)
  from s have "c1 \<in> set (dec_digits n)" by simp
  then have "48 \<le> (of_char c1 :: nat) \<and> (of_char c1 :: nat) \<le> 57" by (rule dec_digits_code)
  with x show False by auto
qed

lemma strtoll_digits:
  assumes "ds = c # cs" "\<forall>x \<in> set ds. is_digit_of 10 x" "\<not> isspace c"
    "c \<noteq> CHR ''-''" "c \<noteq> CHR ''+''"
    "foldl (\<lambda>a c. a * 10 + digit_value c) 0 ds = n"
  shows "strtoll ds 10 =
     (if int n > LLONG_MAX then (LLONG_MAX, [], True, True) else (int n, [], True, False))"
proof -
  have tw: "takeWhile (is_digit_of 10) cs = cs" using assms by (simp add: takeWhile_eq_all_conv)
  have dw: "dropWhile (is_digit_of 10) cs = []" using assms by (simp add: dropWhile_eq_Nil_conv)
  have dc: "is_digit_of 10 c" using assms by simp
  have val: "foldl (\<lambda>a c. a * 10 + digit_value c) (digit_value c) cs = n" using assms by simp
  have min: "\<not> int n < LLONG_MIN" by (simp add: LLONG_MIN_def)
  show ?thesis
    unfolding strtoll_def Let_def assms(1)
    using assms(3-5) min by (simp add: tw dw dc val)
qed

lemma strtoll_minus_digits:
  assumes "ds = c # cs" "\<forall>x \<in> set ds. is_digit_of 10 x"
    "foldl (\<lambda>a c. a * 10 + digit_value c) 0 ds = n"
  shows "strtoll (CHR ''-'' # ds) 10 =
     (if - int n < LLONG_MIN then (LLONG_MIN, [], True, True) else (- int n, [], True, False))"
proof -
  have tw: "takeWhile (is_digit_of 10) cs = cs" using assms by (simp add: takeWhile_eq_all_conv)
  have dw: "dropWhile (is_digit_of 10) cs = []" using assms by (simp add: dropWhile_eq_Nil_conv)
  have dc: "is_digit_of 10 c" using assms by simp
  have val: "foldl (\<lambda>a c. a * 10 + digit_value c) (digit_value c) cs = n" using assms by simp
  have max: "\<not> - int n > LLONG_MAX" by (simp add: LLONG_MAX_def)
  have sp: "\<not> isspace CHR ''-''" by (simp add: isspace_def)
  show ?thesis
    unfolding strtoll_def Let_def assms(1)
    using max by (simp add: tw dw dc val sp)
qed

lemma format_int64_no_NUL: "takeWhile (\<lambda>c. c \<noteq> char_of (0 :: nat)) (format_int64 v) = format_int64 v"
proof -
  have "c \<noteq> char_of (0 :: nat)" if "c \<in> set (dec_digits n)" for c n
    using dec_digits_code [OF that] by auto
  moreover have "CHR ''-'' \<noteq> char_of (0 :: nat)"
  proof
    assume "CHR ''-'' = char_of (0 :: nat)"
    then have "(of_char CHR ''-'' :: nat) = of_char (char_of (0 :: nat))" by simp
    then show False by simp
  qed
  ultimately show ?thesis
    by (auto simp: format_int64_def takeWhile_eq_all_conv)
qed

lemma ParseInt_format_int64: "ParseInt (format_int64 v) = Some v"
proof (cases "sint v < 0")
  case False
  define n where "n = nat (sint v)"
  have n: "int n = sint v" using False by (simp add: n_def)
  have f: "format_int64 v = dec_digits n" using False by (simp add: format_int64_def n_def)
  obtain c cs where s: "dec_digits n = c # cs"
    using dec_digits_nonempty [of n] by (cases "dec_digits n") auto
  then have c: "c \<in> set (dec_digits n)" by simp
  have sp: "\<not> isspace c" using c by (rule dec_digits_not_space)
  have code: "48 \<le> (of_char c :: nat)" using dec_digits_code [OF c] by simp
  have sign: "c \<noteq> CHR ''-''" "c \<noteq> CHR ''+''" using code by auto
  have le: "\<not> int n > LLONG_MAX"
    using sint_lt [of v] by (simp add: n LLONG_MAX_def)
  have ge: "\<not> int n < LLONG_MIN" by (simp add: LLONG_MIN_def)
  have st: "strtoll (dec_digits n) 10 = (int n, [], True, False)"
    using strtoll_digits [OF s _ sp sign dec_digits_value] le
    by (simp add: dec_digits_are_digits)
  have dw: "dropWhile isspace (dec_digits n) = dec_digits n"
    using sp by (simp add: s)
  show ?thesis
    unfolding ParseInt_def format_int64_no_NUL Let_def
    unfolding f dw
    using le ge by (simp add: dec_digits_no_hex_prefix st n)
next
  case True
  define n where "n = nat (- sint v)"
  have n: "- int n = sint v" using True by (simp add: n_def)
  have f: "format_int64 v = CHR ''-'' # dec_digits n" using True by (simp add: format_int64_def n_def)
  obtain c cs where s: "dec_digits n = c # cs"
    using dec_digits_nonempty [of n] by (cases "dec_digits n") auto
  have ge: "\<not> - int n < LLONG_MIN"
    using sint_ge [of v] by (simp add: n LLONG_MIN_def)
  have le: "\<not> - int n > LLONG_MAX" by (simp add: LLONG_MAX_def)
  have st: "strtoll (CHR ''-'' # dec_digits n) 10 = (- int n, [], True, False)"
    using strtoll_minus_digits [OF s _ dec_digits_value] ge
    by (simp add: dec_digits_are_digits)
  have sp: "\<not> isspace CHR ''-''" by (simp add: isspace_def)
  have hp: "\<not> has_hex_prefix (CHR ''-'' # dec_digits n)"
    by (simp add: has_hex_prefix_def split: list.splits)
  have dw: "dropWhile isspace (CHR ''-'' # dec_digits n) = CHR ''-'' # dec_digits n"
    using sp by simp
  show ?thesis
    unfolding ParseInt_def format_int64_no_NUL Let_def
    unfolding f dw
    using le ge by (simp add: hp st n del: dropWhile.simps)
qed

lemma Trim_format_int64: "Trim (format_int64 v) = format_int64 v"
proof (rule Trim_id)
  show "format_int64 v \<noteq> []" by (simp add: format_int64_def dec_digits_nonempty)
  have l: "last (dec_digits n) \<in> set (dec_digits n)" for n by (simp add: dec_digits_nonempty)
  have m: "\<not> isspace CHR ''-''" by (simp add: isspace_def)
  show "\<not> isspace (hd (format_int64 v))"
    using dec_digits_not_space [OF hd_dec_digits] m by (simp add: format_int64_def)
  show "\<not> isspace (last (format_int64 v))"
    using dec_digits_not_space [OF l] by (simp add: format_int64_def dec_digits_nonempty)
qed

lemma Trim_true_false: "Trim ''true'' = ''true''" "Trim ''false'' = ''false''"
  by (simp_all add: Trim_def isspace_def)

section \<open>Proofs: reading back what was written\<close>

lemma write_then_walk: "write_file n p v = Some n' \<Longrightarrow> walk n' p = Some (File v)"
proof (induction n p v arbitrary: n' rule: write_file.induct)
  case (1 n v)
  then show ?case by simp
next
  case (2 c s ss v)
  then show ?case by simp
next
  case (3 m s v)
  then show ?case by (auto split: option.splits node.splits)
next
  case (4 m s t ts v)
  then show ?case by (auto split: option.splits)
qed

lemma get_dir_simps [simp]:
  "get_dir d (fs_log c fs) = get_dir d fs"
  "get_dir d (set_dir d n fs) = n"
  "d \<noteq> d' \<Longrightarrow> get_dir d (set_dir d' n fs) = get_dir d fs"
  "get_dir PrefsDir fs = prefs_dir fs"
  "get_dir TemporaryDir fs = tmp_dir fs"
  by (cases d; cases d'; simp add: get_dir_def set_dir_def fs_log_def)+

lemma dirs_set_dir [simp]:
  "tmp_dir (set_dir PrefsDir n fs) = tmp_dir fs"
  "prefs_dir (set_dir TemporaryDir n fs) = prefs_dir fs"
  "tmp_dir (set_dir TemporaryDir n fs) = n"
  "prefs_dir (set_dir PrefsDir n fs) = n"
  "tmp_dir (fs_log c fs) = tmp_dir fs"
  "prefs_dir (fs_log c fs) = prefs_dir fs"
  by (simp_all add: set_dir_def fs_log_def)

lemma read_resolve:
  "(case resolve n p slash of Some (File c) \<Rightarrow> Some c | _ \<Rightarrow> None)
    = (if slash then None else (case walk n p of Some (File c) \<Rightarrow> Some c | _ \<Rightarrow> None))"
  by (simp add: resolve_def split: option.splits node.splits)

lemma GetFileNameForKey_cases:
  "GetFileNameForKey fs key =
     (if \<not> spec_valid_key key then (None, fs)
      else (Some (if tmp_dir fs \<noteq> None then TemporaryDir else PrefsDir, path_of_key key,
                  ends_with_separator key),
            fs_log (FsExists TemporaryDir) fs))"
  by (auto simp: GetFileNameForKey_def spec_valid_key_def key_chars_ok_iff list_all_iff fs_exists_def)

lemma SetKey_success:
  assumes "SetKey fs key v = (True, fs')"
  shows "spec_valid_key key \<and> \<not> ends_with_separator key
    \<and> (tmp_dir fs' \<noteq> None \<longleftrightarrow> tmp_dir fs \<noteq> None)
    \<and> (\<exists>n n'. write_file n (path_of_key key) v = Some n'
          \<and> get_dir (if tmp_dir fs \<noteq> None then TemporaryDir else PrefsDir) fs' = Some n')
    \<and> (tmp_dir fs \<noteq> None \<longrightarrow> prefs_dir fs' = prefs_dir fs)"
  using assms
  unfolding SetKey_def GetFileNameForKey_cases DirectoryExists_def CreateDirectory_def
    WriteStringToFileAtomic_def DirName_def Let_def
  by (auto split: if_splits option.splits prod.splits)

lemma GetKey_after_SetKey:
  assumes "SetKey fs key v = (True, fs')"
  shows "fst (GetKey fs' key) = Some v"
proof -
  from SetKey_success [OF assms] obtain n n' where
    k: "spec_valid_key key" "\<not> ends_with_separator key"
    and t: "tmp_dir fs' \<noteq> None \<longleftrightarrow> tmp_dir fs \<noteq> None"
    and w: "write_file n (path_of_key key) v = Some n'"
    and g: "get_dir (if tmp_dir fs \<noteq> None then TemporaryDir else PrefsDir) fs' = Some n'"
    by blast
  from w have "walk n' (path_of_key key) = Some (File v)" by (rule write_then_walk)
  with k t g show ?thesis
    unfolding GetKey_def GetFileNameForKey_cases ReadFileToString_def
    by (auto simp: read_resolve split: if_splits)
qed

section \<open>Proofs: observers and typed values\<close>

lemma notify_all_storage [simp]: "the_storage (notify_all h ev key obs p) = the_storage p"
  by (induction obs arbitrary: p) (simp_all add: invoke_def)

lemma notify_all_fired:
  "fired (notify_all h ev key obs p) = fired p @ map (\<lambda>ob. (ob, ev, key, the_storage p)) obs"
  by (induction obs arbitrary: p) (simp_all add: invoke_def)

lemma SetString_storage:
  "the_storage (snd (SetString h p key v)) = snd (st_SetKey (the_storage p) key v)"
  by (simp add: SetString_def split: prod.splits option.splits)

lemma SetString_result:
  "fst (SetString h p key v) = fst (st_SetKey (the_storage p) key v)"
  by (simp add: SetString_def split: prod.splits option.splits)

lemma SetString_fired:
  "fired (snd (SetString h p key v)) = fired p @
     (if fst (st_SetKey (the_storage p) key v)
      then map (\<lambda>ob. (ob, OnPrefSet, key, snd (st_SetKey (the_storage p) key v))) (registered p key)
      else [])"
  by (simp add: SetString_def registered_def notify_all_fired split: prod.splits option.splits)

lemma Delete_storage:
  "the_storage (snd (Delete h p key)) = snd (st_DeleteKey (the_storage p) key)"
  by (simp add: Delete_def split: prod.splits option.splits)

lemma Delete_result:
  "fst (Delete h p key) = fst (st_DeleteKey (the_storage p) key)"
  by (simp add: Delete_def split: prod.splits option.splits)

lemma Delete_fired:
  "fired (snd (Delete h p key)) = fired p @
     (if fst (st_DeleteKey (the_storage p) key)
      then map (\<lambda>ob. (ob, OnPrefDeleted, key, snd (st_DeleteKey (the_storage p) key))) (registered p key)
      else [])"
  by (simp add: Delete_def registered_def notify_all_fired split: prod.splits option.splits)

text \<open>
  Claim C5. \<open>SetString\<close> and \<open>Delete\<close> succeed exactly when the write to the storage
  (\<open>SetKey\<close>, \<open>DeleteKey\<close>) succeeds. When it fails no observer is called. When it
  succeeds, the observers called are the ones that were registered for the key when the
  operation started, each once and in order, whatever the observers do to the table of
  observers while they are called (the loop runs over a copy); each of them sees the
  storage as the successful write has left it.
\<close>

theorem observers_fire_exactly_after_a_successful_write:
  "fst (SetString h p key v) = fst (st_SetKey (the_storage p) key v)
   \<and> the_storage (snd (SetString h p key v)) = snd (st_SetKey (the_storage p) key v)
   \<and> fired (snd (SetString h p key v)) = fired p @
       (if fst (st_SetKey (the_storage p) key v)
        then map (\<lambda>ob. (ob, OnPrefSet, key, snd (st_SetKey (the_storage p) key v))) (registered p key)
        else [])
   \<and> fst (Delete h p key) = fst (st_DeleteKey (the_storage p) key)
   \<and> the_storage (snd (Delete h p key)) = snd (st_DeleteKey (the_storage p) key)
   \<and> fired (snd (Delete h p key)) = fired p @
       (if fst (st_DeleteKey (the_storage p) key)
        then map (\<lambda>ob. (ob, OnPrefDeleted, key, snd (st_DeleteKey (the_storage p) key))) (registered p key)
        else [])"
  by (simp only: SetString_result SetString_storage SetString_fired
      Delete_result Delete_storage Delete_fired simp_thms)

lemma example_registered: "registered watched_prefs ''boot-id'' = [1, 2]"
  by (simp add: registered_def watched_prefs_def)

lemma example_memory_write:
  "st_SetKey (the_storage watched_prefs) ''boot-id'' ''7'' = (True, MemoryStorage [''boot-id'' \<mapsto> ''7''])"
  by (simp add: watched_prefs_def st_SetKey_def mem_SetKey_def)

lemma example_unregistered:
  "the_observers (snd (SetString unregister_all watched_prefs ''boot-id'' ''7'')) ''boot-id'' = Some []"
  by (simp add: SetString_def watched_prefs_def unregister_all_def invoke_def st_SetKey_def mem_SetKey_def)

lemma example_rejected_write:
  "st_SetKey (the_storage file_prefs) ''boot.id'' ''7'' = (False, FileStorage empty_store)"
  by (simp add: file_prefs_def st_SetKey_def SetKey_def GetFileNameForKey_cases spec_valid_key_def
      key_alphabet_def)

theorem observers_fire_witness:
  "fired (snd (SetString unregister_all watched_prefs ''boot-id'' ''7''))
     = [(1, OnPrefSet, ''boot-id'', MemoryStorage [''boot-id'' \<mapsto> ''7'']),
        (2, OnPrefSet, ''boot-id'', MemoryStorage [''boot-id'' \<mapsto> ''7''])]
   \<and> the_observers (snd (SetString unregister_all watched_prefs ''boot-id'' ''7'')) ''boot-id'' = Some []
   \<and> \<not> fst (SetString quiet file_prefs ''boot.id'' ''7'')
   \<and> fired (snd (SetString quiet file_prefs ''boot.id'' ''7'')) = []"
  using observers_fire_exactly_after_a_successful_write [of unregister_all watched_prefs "''boot-id''" "''7''"]
    observers_fire_exactly_after_a_successful_write [of quiet file_prefs "''boot.id''" "''7''"]
  by (simp add: example_registered example_memory_write example_unregistered example_rejected_write)
    (simp add: watched_prefs_def file_prefs_def)

lemma st_GetKey_after_st_SetKey:
  assumes "st_SetKey st key v = (True, st')"
  shows "fst (st_GetKey st' key) = Some v"
proof (cases st)
  case (FileStorage fs)
  with assms obtain fs' where "SetKey fs key v = (True, fs')" "st' = FileStorage fs'"
    by (auto simp: st_SetKey_def split: prod.splits)
  then show ?thesis
    using GetKey_after_SetKey [of fs key v fs'] by (auto simp: st_GetKey_def split: prod.splits)
next
  case (MemoryStorage vals)
  with assms show ?thesis
    by (auto simp: st_SetKey_def st_GetKey_def mem_SetKey_def mem_GetKey_def)
qed

lemma GetString_after_SetString:
  assumes "fst (SetString h p key v)"
  shows "fst (GetString (snd (SetString h p key v)) key) = Some v"
proof -
  from assms have "st_SetKey (the_storage p) key v = (True, the_storage (snd (SetString h p key v)))"
    by (simp add: SetString_result SetString_storage prod_eq_iff)
  then have "fst (st_GetKey (the_storage (snd (SetString h p key v))) key) = Some v"
    by (rule st_GetKey_after_st_SetKey)
  then show ?thesis
    by (auto simp: GetString_def split: prod.splits)
qed

text \<open>
  Claim C7. After a successful \<open>SetInt64\<close> of a value the key holds its decimal text and
  \<open>GetInt64\<close> gives the value back; after a successful \<open>SetBoolean\<close> the key holds
  \<open>true\<close> or \<open>false\<close> and \<open>GetBoolean\<close> gives the boolean back. This holds for the
  file store and for the memory store.
\<close>

theorem int64_and_boolean_read_back:
  "(fst (SetInt64 h p key v) \<longrightarrow>
      fst (GetString (snd (SetInt64 h p key v)) key) = Some (format_int64 v)
      \<and> fst (GetInt64 (snd (SetInt64 h p key v)) key) = Some v)
   \<and> (fst (SetBoolean h p key b) \<longrightarrow>
      fst (GetString (snd (SetBoolean h p key b)) key) = Some (if b then ''true'' else ''false'')
      \<and> fst (GetBoolean (snd (SetBoolean h p key b)) key) = Some b)"
proof (intro conjI impI)
  assume ok: "fst (SetInt64 h p key v)"
  then show s: "fst (GetString (snd (SetInt64 h p key v)) key) = Some (format_int64 v)"
    unfolding SetInt64_def by (rule GetString_after_SetString)
  have "format_int64 v \<noteq> []" by (simp add: format_int64_def dec_digits_nonempty)
  with s show "fst (GetInt64 (snd (SetInt64 h p key v)) key) = Some v"
    by (auto simp: GetInt64_def Trim_format_int64 ParseInt_format_int64 split: prod.splits option.splits)
next
  assume ok: "fst (SetBoolean h p key b)"
  then show s: "fst (GetString (snd (SetBoolean h p key b)) key) = Some (if b then ''true'' else ''false'')"
    unfolding SetBoolean_def by (rule GetString_after_SetString)
  then show "fst (GetBoolean (snd (SetBoolean h p key b)) key) = Some b"
    by (cases b) (auto simp: GetBoolean_def Trim_true_false split: prod.splits option.splits)
qed

lemma example_file_write:
  "SetKey empty_store ''boot-id'' v =
     (True, \<lparr>prefs_dir = Some (Dir (fmupd ''boot-id'' (File v) fmempty)), tmp_dir = None,
        calls = [FsExists TemporaryDir, FsDirectoryExists (Some (PrefsDir, [], False)),
                 FsWriteFile (PrefsDir, [''boot-id''], False) v]\<rparr>)"
  by (simp add: SetKey_def GetFileNameForKey_cases spec_valid_key_def key_alphabet_def
      empty_store_def path_of_key_def ends_with_separator_def DirName_def DirectoryExists_def
      WriteStringToFileAtomic_def fs_log_def set_dir_def)

lemma example_SetInt64: "fst (SetInt64 quiet file_prefs ''boot-id'' (- 42))"
  by (simp add: SetInt64_def SetString_def file_prefs_def st_SetKey_def example_file_write)

lemma example_SetBoolean: "fst (SetBoolean quiet file_prefs ''boot-id'' True)"
  by (simp add: SetBoolean_def SetString_def file_prefs_def st_SetKey_def example_file_write)

theorem int64_and_boolean_read_back_witness:
  "fst (SetInt64 quiet file_prefs ''boot-id'' (- 42))
   \<and> fst (GetInt64 (snd (SetInt64 quiet file_prefs ''boot-id'' (- 42))) ''boot-id'') = Some (- 42)
   \<and> fst (SetBoolean quiet file_prefs ''boot-id'' True)
   \<and> fst (GetBoolean (snd (SetBoolean quiet file_prefs ''boot-id'' True)) ''boot-id'') = Some True"
  using int64_and_boolean_read_back [of quiet file_prefs "''boot-id''" "- 42" True]
    example_SetInt64 example_SetBoolean
  by simp

section \<open>Proofs: transactions of the file store\<close>

lemma walk_empty_dir: "walk (Dir fmempty) p \<noteq> Some (File c)"
  by (cases p) simp_all

lemma walk_pruned:
  "walk (DeleteEmptyDirectories n) p = Some (File c) \<longleftrightarrow> walk n p = Some (File c)"
proof (induction p arbitrary: n)
  case Nil
  show ?case by (cases n) (simp_all add: Let_def)
next
  case (Cons s ss)
  show ?case
  proof (cases n)
    case (File x)
    then show ?thesis by simp
  next
    case (Dir m)
    show ?thesis
    proof (cases "fmlookup m s")
      case None
      with Dir show ?thesis by (simp add: Let_def)
    next
      case (Some k)
      show ?thesis
      proof (cases "DeleteEmptyDirectories k = Dir fmempty")
        case True
        with Cons.IH [of k] have "walk k ss \<noteq> Some (File c)"
          by (simp add: walk_empty_dir)
        with True Dir Some show ?thesis by (simp add: Let_def)
      next
        case False
        with Dir Some Cons.IH [of k] show ?thesis by (simp add: Let_def)
      qed
    qed
  qed
qed

lemma stored_cases:
  "stored fs key =
     (if \<not> spec_valid_key key then None
      else case (if tmp_dir fs \<noteq> None then tmp_dir fs else prefs_dir fs) of
             None \<Rightarrow> None
           | Some n \<Rightarrow>
               if ends_with_separator key then None
               else (case walk n (path_of_key key) of Some (File c) \<Rightarrow> Some c | _ \<Rightarrow> None))"
  by (auto simp: stored_def GetKey_def GetFileNameForKey_cases ReadFileToString_def resolve_def
      split: option.splits node.splits)

lemma read_pruned:
  "(case walk (DeleteEmptyDirectories n) p of Some (File c) \<Rightarrow> Some c | _ \<Rightarrow> None)
    = (case walk n p of Some (File c) \<Rightarrow> Some c | _ \<Rightarrow> None)"
proof (cases "\<exists>c. walk n p = Some (File c)")
  case True
  then obtain c where c: "walk n p = Some (File c)" by blast
  then have "walk (DeleteEmptyDirectories n) p = Some (File c)" by (simp add: walk_pruned)
  with c show ?thesis by simp
next
  case False
  then have 1: "\<And>c. walk n p \<noteq> Some (File c)" by blast
  then have 2: "\<And>c. walk (DeleteEmptyDirectories n) p \<noteq> Some (File c)" by (simp add: walk_pruned)
  from 1 have a: "(case walk n p of Some (File c) \<Rightarrow> Some c | _ \<Rightarrow> None) = None"
    by (auto split: option.splits node.splits)
  from 2 have b: "(case walk (DeleteEmptyDirectories n) p of Some (File c) \<Rightarrow> Some c | _ \<Rightarrow> None) = None"
    by (auto split: option.splits node.splits)
  show ?thesis by (simp only: a b)
qed

lemma SetKey_dirs:
  "tmp_dir (snd (SetKey fs key v)) \<noteq> None \<Longrightarrow>
     tmp_dir fs \<noteq> None \<and> prefs_dir (snd (SetKey fs key v)) = prefs_dir fs"
  unfolding SetKey_def GetFileNameForKey_cases DirectoryExists_def CreateDirectory_def
    WriteStringToFileAtomic_def DirName_def Let_def
  by (auto split: if_splits option.splits prod.splits)

lemma DeleteKey_dirs:
  "tmp_dir (snd (DeleteKey fs key)) \<noteq> None \<Longrightarrow>
     tmp_dir fs \<noteq> None \<and> prefs_dir (snd (DeleteKey fs key)) = prefs_dir fs"
  unfolding DeleteKey_def GetFileNameForKey_cases DeleteFile_def Let_def
  by (auto split: if_splits option.splits prod.splits)

lemma GetKey_dirs:
  "tmp_dir (snd (GetKey fs key)) = tmp_dir fs \<and> prefs_dir (snd (GetKey fs key)) = prefs_dir fs"
  unfolding GetKey_def GetFileNameForKey_cases ReadFileToString_def by simp

lemma KeyExists_dirs:
  "tmp_dir (snd (KeyExists fs key)) = tmp_dir fs \<and> prefs_dir (snd (KeyExists fs key)) = prefs_dir fs"
  unfolding KeyExists_def GetFileNameForKey_cases PathExists_def by simp

lemma run_ops_dirs:
  "tmp_dir (run_ops fs ops) \<noteq> None \<Longrightarrow>
     tmp_dir fs \<noteq> None \<and> prefs_dir (run_ops fs ops) = prefs_dir fs"
proof (induction fs ops rule: run_ops.induct)
  case (1 fs)
  then show ?case by simp
next
  case (2 fs key v ops)
  then show ?case using SetKey_dirs [of fs key v] by simp
next
  case (3 fs key ops)
  then show ?case using DeleteKey_dirs [of fs key] by simp
next
  case (4 fs key ops)
  then show ?case using GetKey_dirs [of fs key] by simp
next
  case (5 fs key ops)
  then show ?case using KeyExists_dirs [of fs key] by simp
qed

lemma CreateTemporaryPrefs_success:
  "CreateTemporaryPrefs fs = (True, fs1) \<Longrightarrow>
     prefs_dir fs1 = prefs_dir fs \<and> prefs_dir fs \<noteq> None \<and> tmp_dir fs1 \<noteq> None"
  unfolding CreateTemporaryPrefs_def DeleteTemporaryPrefs_def fs_exists_def remove_all_def
    copy_call_def Let_def
  by (auto split: if_splits option.splits prod.splits)

lemma SwapPrefs_success:
  "SwapPrefs fs = (True, fs3) \<Longrightarrow>
     tmp_dir fs \<noteq> None \<and> prefs_dir fs3 = tmp_dir fs \<and> tmp_dir fs3 = None"
  unfolding SwapPrefs_def DeleteDirectory_def rename_dir_def FsyncDirectory_def Let_def
  by (auto split: if_splits option.splits prod.splits)

lemma SwapPrefs_open:
  "tmp_dir fs \<noteq> None \<Longrightarrow> fst (SwapPrefs fs)"
  unfolding SwapPrefs_def DeleteDirectory_def rename_dir_def FsyncDirectory_def Let_def
  by (auto split: if_splits option.splits prod.splits)

lemma Init_both:
  "prefs_dir fs \<noteq> None \<Longrightarrow> tmp_dir fs \<noteq> None \<Longrightarrow>
     fst (Init fs) \<and> tmp_dir (snd (Init fs)) = None
     \<and> prefs_dir (snd (Init fs)) = map_option DeleteEmptyDirectories (prefs_dir fs)"
  unfolding Init_def fs_exists_def DeleteDirectory_def prune_prefs_dir_def Let_def
  by (auto simp: fs_log_def split: if_splits option.splits prod.splits)

lemma Init_promote:
  "prefs_dir fs = None \<Longrightarrow> tmp_dir fs \<noteq> None \<Longrightarrow>
     fst (Init fs) \<and> tmp_dir (snd (Init fs)) = None
     \<and> prefs_dir (snd (Init fs)) = map_option DeleteEmptyDirectories (tmp_dir fs)"
  unfolding Init_def SwapPrefs_def fs_exists_def DeleteDirectory_def rename_dir_def
    FsyncDirectory_def prune_prefs_dir_def Let_def
  by (auto simp: fs_log_def split: if_splits option.splits prod.splits)

lemma run_ops_append: "run_ops fs (ops @ ops') = run_ops (run_ops fs ops) ops'"
  by (induction fs ops rule: run_ops.induct) simp_all

lemma stopped_dirs:
  "prefs_dir (SwapPrefs_stopped_after_removal fs) = None"
  "tmp_dir (SwapPrefs_stopped_after_removal fs) = tmp_dir fs"
  by (simp_all add: SwapPrefs_stopped_after_removal_def DeleteDirectory_def)

text \<open>
  Claim C4, as amended. A transaction starts with no other transaction open. After a
  successful \<open>SubmitTransaction\<close> the store answers every key as it did inside the
  transaction just before, so every write made since \<open>StartTransaction\<close> is visible (the
  last write in particular). If the process stops after \<open>StartTransaction\<close> with the
  temporary directory still in place, \<open>Init\<close> succeeds, deletes the temporary directory
  and the store answers every key as before \<open>StartTransaction\<close>. If it stops inside
  \<open>SubmitTransaction\<close>, after the preference directory was removed, \<open>Init\<close> succeeds,
  promotes the temporary directory and the store answers every key as inside the
  transaction: all the writes are visible, none is lost.
\<close>

theorem transaction_all_or_nothing:
  assumes "tmp_dir fs0 = None" "StartTransaction fs0 = (True, fs1)" "fs2 = run_ops fs1 ops"
  shows "(SubmitTransaction fs2 = (True, fs3) \<longrightarrow>
           (\<forall>key. stored fs3 key = stored fs2 key)
           \<and> (\<forall>ops' key v. ops = ops' @ [TxSet key v] \<and> fst (SetKey (run_ops fs1 ops') key v)
                 \<longrightarrow> stored fs3 key = Some v))
    \<and> (tmp_dir fs2 \<noteq> None \<longrightarrow>
           fst (Init fs2) \<and> (\<forall>key. stored (snd (Init fs2)) key = stored fs0 key)
           \<and> fst (Init (SwapPrefs_stopped_after_removal fs2))
           \<and> (\<forall>key. stored (snd (Init (SwapPrefs_stopped_after_removal fs2))) key = stored fs2 key))"
proof (intro conjI impI allI)
  assume sw: "SubmitTransaction fs2 = (True, fs3)"
  from SwapPrefs_success [OF sw [unfolded SubmitTransaction_def]]
  have d: "tmp_dir fs2 \<noteq> None" "prefs_dir fs3 = tmp_dir fs2" "tmp_dir fs3 = None" by simp_all
  show view: "stored fs3 key = stored fs2 key" for key
    using d by (simp add: stored_cases)
  show "stored fs3 key = Some v"
    if "ops = ops' @ [TxSet key v] \<and> fst (SetKey (run_ops fs1 ops') key v)" for ops' key v
  proof -
    from that have "fs2 = snd (SetKey (run_ops fs1 ops') key v)"
      by (simp add: assms(3) run_ops_append)
    with that have "SetKey (run_ops fs1 ops') key v = (True, fs2)"
      by (simp add: prod_eq_iff)
    then have "fst (GetKey fs2 key) = Some v" by (rule GetKey_after_SetKey)
    with view [of key] show ?thesis by (simp add: stored_def)
  qed
next
  assume t: "tmp_dir fs2 \<noteq> None"
  from CreateTemporaryPrefs_success [OF assms(2) [unfolded StartTransaction_def]]
  have s: "prefs_dir fs1 = prefs_dir fs0" "prefs_dir fs0 \<noteq> None" by simp_all
  from run_ops_dirs [of fs1 ops] t assms(3) have r: "prefs_dir fs2 = prefs_dir fs1" by simp
  with s have r0: "prefs_dir fs2 = prefs_dir fs0" "prefs_dir fs2 \<noteq> None" by simp_all
  from Init_both [OF r0(2) t]
  have i: "fst (Init fs2)" "tmp_dir (snd (Init fs2)) = None"
    "prefs_dir (snd (Init fs2)) = map_option DeleteEmptyDirectories (prefs_dir fs2)" by simp_all
  show "fst (Init fs2)" by (rule i)
  show "stored (snd (Init fs2)) key = stored fs0 key" for key
    using i r0 assms(1) by (cases "prefs_dir fs0") (simp_all add: stored_cases read_pruned)
  from t have "tmp_dir (SwapPrefs_stopped_after_removal fs2) \<noteq> None" by (simp add: stopped_dirs)
  from Init_promote [OF stopped_dirs(1) this]
  have p: "fst (Init (SwapPrefs_stopped_after_removal fs2))"
    "tmp_dir (snd (Init (SwapPrefs_stopped_after_removal fs2))) = None"
    "prefs_dir (snd (Init (SwapPrefs_stopped_after_removal fs2)))
       = map_option DeleteEmptyDirectories (tmp_dir fs2)"
    by (simp_all add: stopped_dirs)
  show "fst (Init (SwapPrefs_stopped_after_removal fs2))" by (rule p)
  show "stored (snd (Init (SwapPrefs_stopped_after_removal fs2))) key = stored fs2 key" for key
    using p t by (cases "tmp_dir fs2") (simp_all add: stored_cases read_pruned)
qed

lemma example_start:
  "StartTransaction one_key_store =
     (True, \<lparr>prefs_dir = Some (Dir (fmupd ''boot-id'' (File ''1'') fmempty)),
        tmp_dir = Some (Dir (top_level_files (fmupd ''boot-id'' (File ''1'') fmempty))),
        calls = [FsExists TemporaryDir, FsExists PrefsDir, FsCopy PrefsDir TemporaryDir]\<rparr>)"
  by (simp add: StartTransaction_def CreateTemporaryPrefs_def DeleteTemporaryPrefs_def
      fs_exists_def copy_call_def copy_dir_def one_key_store_def fs_log_def set_dir_def)

lemma example_copy: "top_level_files (fmupd ''boot-id'' (File ''1'') fmempty) = fmupd ''boot-id'' (File ''1'') fmempty"
  by (rule fmap_ext) (simp add: top_level_files_def is_file_def)

lemma example_key: "spec_valid_key ''boot-id''" "path_of_key ''boot-id'' = [''boot-id'']"
  "\<not> ends_with_separator ''boot-id''"
  by (simp_all add: spec_valid_key_def key_alphabet_def path_of_key_def ends_with_separator_def)

lemma example_write_in_transaction:
  "tmp_dir (snd (SetKey (snd (StartTransaction one_key_store)) ''boot-id'' ''2''))
     = Some (Dir (fmupd ''boot-id'' (File ''2'') (fmupd ''boot-id'' (File ''1'') fmempty)))"
  by (simp add: example_start example_copy SetKey_def GetFileNameForKey_cases example_key
      DirName_def DirectoryExists_def WriteStringToFileAtomic_def)

text \<open>
  The promoted store is the store of the transaction, not the one from before it: with
  \<open>boot-id\<close> holding 1, a transaction that writes 2 and stops inside \<open>SwapPrefs\<close> after
  the removal of the preference directory leaves 2 after \<open>Init\<close>.
\<close>

theorem promoted_store_is_not_the_store_before_the_transaction:
  "fst (StartTransaction one_key_store)
   \<and> prefs_dir (SwapPrefs_stopped_after_removal
        (run_ops (snd (StartTransaction one_key_store)) [TxSet ''boot-id'' ''2''])) = None
   \<and> tmp_dir (SwapPrefs_stopped_after_removal
        (run_ops (snd (StartTransaction one_key_store)) [TxSet ''boot-id'' ''2''])) \<noteq> None
   \<and> fst (Init (SwapPrefs_stopped_after_removal
        (run_ops (snd (StartTransaction one_key_store)) [TxSet ''boot-id'' ''2''])))
   \<and> stored (snd (Init (SwapPrefs_stopped_after_removal
        (run_ops (snd (StartTransaction one_key_store)) [TxSet ''boot-id'' ''2''])))) ''boot-id''
        = Some ''2''
   \<and> stored one_key_store ''boot-id'' = Some ''1''"
proof -
  define c where "c = SwapPrefs_stopped_after_removal
        (run_ops (snd (StartTransaction one_key_store)) [TxSet ''boot-id'' ''2''])"
  have 1: "fst (StartTransaction one_key_store)" by (simp add: example_start)
  have 2: "prefs_dir c = None" unfolding c_def by (rule stopped_dirs)
  have 3: "tmp_dir c = Some (Dir (fmupd ''boot-id'' (File ''2'') (fmupd ''boot-id'' (File ''1'') fmempty)))"
    unfolding c_def by (simp add: stopped_dirs example_write_in_transaction)
  then have 4: "tmp_dir c \<noteq> None" by simp
  from Init_promote [OF 2 4] 3
  have 5: "fst (Init c)" "tmp_dir (snd (Init c)) = None"
    "prefs_dir (snd (Init c)) = Some (DeleteEmptyDirectories
       (Dir (fmupd ''boot-id'' (File ''2'') (fmupd ''boot-id'' (File ''1'') fmempty))))"
    by simp_all
  have 6: "stored (snd (Init c)) ''boot-id'' = Some ''2''"
    unfolding stored_cases 5 by (simp add: example_key read_pruned)
  have 7: "stored one_key_store ''boot-id'' = Some ''1''"
    by (simp add: stored_cases example_key one_key_store_def)
  from 1 2 4 5(1) 6 7 show ?thesis unfolding c_def by (intro conjI)
qed

theorem transaction_all_or_nothing_witness:
  "tmp_dir one_key_store = None
   \<and> fst (StartTransaction one_key_store)
   \<and> tmp_dir (run_ops (snd (StartTransaction one_key_store)) [TxSet ''boot-id'' ''2'']) \<noteq> None
   \<and> fst (SubmitTransaction (run_ops (snd (StartTransaction one_key_store)) [TxSet ''boot-id'' ''2'']))
   \<and> stored (snd (SubmitTransaction (run_ops (snd (StartTransaction one_key_store)) [TxSet ''boot-id'' ''2'']))) ''boot-id'' = Some ''2''
   \<and> stored (snd (Init (run_ops (snd (StartTransaction one_key_store)) [TxSet ''boot-id'' ''2'']))) ''boot-id'' = Some ''1''
   \<and> stored (snd (Init (SwapPrefs_stopped_after_removal
        (run_ops (snd (StartTransaction one_key_store)) [TxSet ''boot-id'' ''2''])))) ''boot-id'' = Some ''2''"
proof -
  define fs1 where "fs1 = snd (StartTransaction one_key_store)"
  define fs2 where "fs2 = run_ops fs1 [TxSet ''boot-id'' ''2'']"
  define fs3 where "fs3 = snd (SubmitTransaction fs2)"
  have a: "tmp_dir one_key_store = None" by (simp add: one_key_store_def)
  have b: "StartTransaction one_key_store = (True, fs1)" by (simp add: fs1_def example_start)
  have c: "tmp_dir fs2 \<noteq> None" by (simp add: fs2_def fs1_def example_write_in_transaction)
  have d: "SubmitTransaction fs2 = (True, fs3)"
    using SwapPrefs_open [OF c] by (simp add: prod_eq_iff fs3_def SubmitTransaction_def)
  have e: "[TxSet ''boot-id'' ''2''] = [] @ [TxSet ''boot-id'' ''2''] \<and> fst (SetKey (run_ops fs1 []) ''boot-id'' ''2'')"
    by (simp add: fs1_def example_start example_copy SetKey_def GetFileNameForKey_cases example_key
      DirName_def DirectoryExists_def WriteStringToFileAtomic_def)
  have f: "stored one_key_store ''boot-id'' = Some ''1''"
    by (simp add: stored_cases example_key one_key_store_def)
  note T = transaction_all_or_nothing [OF a b fs2_def, of fs3]
  from T d e have g: "stored fs3 ''boot-id'' = Some ''2''" by blast
  from T c f have h: "stored (snd (Init fs2)) ''boot-id'' = Some ''1''" by simp
  from T c g d have i: "stored (snd (Init (SwapPrefs_stopped_after_removal fs2))) ''boot-id'' = Some ''2''"
    by simp
  from b have b': "fst (StartTransaction one_key_store)" by simp
  from d have d': "fst (SubmitTransaction fs2)" by simp
  from a b' c d' g h i show ?thesis
    unfolding fs3_def fs2_def fs1_def by (intro conjI)
qed

section \<open>Proofs: the payload file\<close>

subsection \<open>Big-endian numbers\<close>

lemma byte_of_word: "unat (ucast (drop_bit k w) :: 8 word) = (unat w div 2 ^ k) mod 256"
  unfolding unsigned_ucast_eq unat_drop_bit_eq by (simp add: drop_bit_eq_div take_bit_eq_mod)

lemma low_byte_of_word: "unat (ucast w :: 8 word) = unat w mod 256"
  using byte_of_word [of 0 w] by simp

lemma unat_drop_bit_div: "unat (drop_bit k w) = unat w div 2 ^ k"
  unfolding unat_drop_bit_eq by (simp add: drop_bit_eq_div)

lemma next_byte: "(n div 2 ^ (k + 8)) * 256 + (n div 2 ^ k) mod 256 = n div 2 ^ k" for n k :: nat
proof -
  have "n div 2 ^ (k + 8) = (n div 2 ^ k) div 256"
    by (simp add: power_add div_mult2_eq)
  then show ?thesis by simp
qed

lemma be32_value: "foldl (\<lambda>a b. a * 256 + unat b) 0 (be32 w) = unat w"
proof -
  define n where "n = unat w"
  have lt: "n < 2 ^ 32" unfolding n_def using unsigned_less [of w] by simp
  then have "n div 2 ^ 24 < 256" by (simp add: less_mult_imp_div_less)
  then have top: "(n div 2 ^ 24) mod 256 = n div 2 ^ 24" by simp
  have "foldl (\<lambda>a b. a * 256 + unat b) 0 (be32 w)
     = (((n div 2 ^ 24) mod 256 * 256 + (n div 2 ^ 16) mod 256) * 256 + (n div 2 ^ 8) mod 256) * 256
         + (n div 2 ^ 0) mod 256"
    by (simp add: be32_def low_byte_of_word unat_drop_bit_div n_def)
  also have "\<dots> = n"
    unfolding top using next_byte [of n 16] next_byte [of n 8] next_byte [of n 0] by simp
  finally show ?thesis by (simp add: n_def)
qed

lemma be64_value: "foldl (\<lambda>a b. a * 256 + unat b) 0 (be64 w) = unat w"
proof -
  define n where "n = unat w"
  have lt: "n < 2 ^ 64" unfolding n_def using unsigned_less [of w] by simp
  then have "n div 2 ^ 56 < 256" by (simp add: less_mult_imp_div_less)
  then have top: "(n div 2 ^ 56) mod 256 = n div 2 ^ 56" by simp
  have "foldl (\<lambda>a b. a * 256 + unat b) 0 (be64 w)
     = (((((((n div 2 ^ 56) mod 256 * 256 + (n div 2 ^ 48) mod 256) * 256 + (n div 2 ^ 40) mod 256) * 256
          + (n div 2 ^ 32) mod 256) * 256 + (n div 2 ^ 24) mod 256) * 256 + (n div 2 ^ 16) mod 256) * 256
          + (n div 2 ^ 8) mod 256) * 256 + (n div 2 ^ 0) mod 256"
    by (simp add: be64_def low_byte_of_word unat_drop_bit_div n_def)
  also have "\<dots> = n"
    unfolding top
    using next_byte [of n 48] next_byte [of n 40] next_byte [of n 32] next_byte [of n 24]
      next_byte [of n 16] next_byte [of n 8] next_byte [of n 0] by simp
  finally show ?thesis by (simp add: n_def)
qed

subsection \<open>Data offsets\<close>

lemma check_aops_append:
  "check_aops (xs @ ys) n = (case check_aops xs n of None \<Rightarrow> None | Some k \<Rightarrow> check_aops ys k)"
  by (induction xs arbitrary: n) simp_all

lemma check_parts_flat: "check_parts parts n = check_aops (concat (map aops parts)) n"
  by (induction parts arbitrary: n) (simp_all add: check_aops_append split: option.splits)

lemma blob_bytes_before_0 [simp]: "blob_bytes_before ops 0 = 0"
  by (simp add: blob_bytes_before_def)

lemma blob_bytes_before_Suc:
  "blob_bytes_before (x # ops) (Suc i) =
     (if has_data_offset x then get_data_length x + blob_bytes_before ops i
      else blob_bytes_before ops i)"
  by (simp add: blob_bytes_before_def)

lemma check_aops_offsets:
  "check_aops xs n = Some k \<Longrightarrow> i < length xs \<Longrightarrow> has_data_offset (aop_op (xs ! i)) \<Longrightarrow>
     get_data_offset (aop_op (xs ! i)) = n + blob_bytes_before (map aop_op xs) i"
proof (induction xs arbitrary: n i)
  case Nil
  then show ?case by simp
next
  case (Cons x xs)
  show ?case
  proof (cases i)
    case 0
    with Cons.prems show ?thesis by (simp split: if_splits)
  next
    case (Suc i')
    with Cons.prems Cons.IH [of _ i'] show ?thesis
      by (auto simp: blob_bytes_before_Suc split: if_splits)
  qed
qed

lemma emitted_operations_parts:
  "emitted_operations (m\<lparr>partitions := map partition_update_of parts\<rparr>)
     = map aop_op (concat (map aops parts))"
  by (simp add: emitted_operations_def partition_update_of_def Let_def map_concat comp_def)

lemma emitted_operations_signed [simp]:
  "emitted_operations (AddSignatureToManifest a b m) = emitted_operations m"
  by (simp add: emitted_operations_def AddSignatureToManifest_def)

lemma WritePayload_checked:
  assumes "WritePayload env pf data_blobs key = Inr w"
  shows "\<exists>k. check_parts (written_part_vec w) 0 = Some k
    \<and> emitted_operations (written_manifest w) = map aop_op (concat (map aops (written_part_vec w)))"
  using assms
  by (auto simp: WritePayload_def Let_def emitted_operations_parts
      split: sum.splits option.splits prod.splits if_splits)

lemma WritePayload_cumulative:
  assumes "WritePayload env pf data_blobs key = Inr w"
  shows "offsets_are_cumulative (emitted_operations (written_manifest w))"
proof -
  from WritePayload_checked [OF assms] obtain k where
    c: "check_aops (concat (map aops (written_part_vec w))) 0 = Some k"
    and e: "emitted_operations (written_manifest w) = map aop_op (concat (map aops (written_part_vec w)))"
    by (auto simp: check_parts_flat)
  show ?thesis
    unfolding offsets_are_cumulative_def e
    using check_aops_offsets [OF c] by simp
qed

lemma unat_sum_list:
  "sum_list (map unat xs) < 2 ^ 64 \<Longrightarrow> unat (sum_list xs :: uint64) = sum_list (map unat xs)"
proof (induction xs)
  case Nil
  then show ?case by simp
next
  case (Cons x xs)
  then have ih: "unat (sum_list xs) = sum_list (map unat xs)" by simp
  with Cons.prems have "unat x + unat (sum_list xs) < 2 ^ LENGTH(64)" by simp
  then have "unat (x + sum_list xs) = unat x + unat (sum_list xs)"
    by (simp only: unat_add_lem)
  with ih show ?case by simp
qed

lemma total_blob_bytes_append:
  "total_blob_bytes (xs @ ys) = total_blob_bytes xs + total_blob_bytes ys"
  by (simp add: total_blob_bytes_def)

lemma total_blob_bytes_take_mono:
  "i \<le> j \<Longrightarrow> total_blob_bytes (take i ops) \<le> total_blob_bytes (take j ops)"
proof -
  assume "i \<le> j"
  then have "take j ops = take i ops @ take (j - i) (drop i ops)"
    by (metis le_add_diff_inverse take_add)
  then show ?thesis by (simp add: total_blob_bytes_append)
qed

lemma total_blob_bytes_take_le: "total_blob_bytes (take i ops) \<le> total_blob_bytes ops"
  using total_blob_bytes_append [of "take i ops" "drop i ops"] by simp

lemma unat_blob_bytes_before:
  assumes "total_blob_bytes ops < 2 ^ 64"
  shows "unat (blob_bytes_before ops i) = total_blob_bytes (take i ops)"
proof -
  have "total_blob_bytes (take i ops) < 2 ^ 64"
    using total_blob_bytes_take_le [of i ops] assms by simp
  then have "sum_list (map unat (map get_data_length (filter has_data_offset (take i ops)))) < 2 ^ 64"
    by (simp add: total_blob_bytes_def comp_def)
  from unat_sum_list [OF this] show ?thesis
    by (simp add: blob_bytes_before_def total_blob_bytes_def comp_def)
qed

lemma cumulative_strict:
  assumes c: "offsets_are_cumulative ops"
    and pos: "\<forall>operation \<in> set ops. has_data_offset operation \<longrightarrow> 0 < get_data_length operation"
    and tot: "total_blob_bytes ops < 2 ^ 64"
  shows "offsets_strictly_increase ops"
  unfolding offsets_strictly_increase_def
proof (intro allI impI)
  fix i j
  assume h: "i < j \<and> j < length ops \<and> has_data_offset (ops ! i) \<and> has_data_offset (ops ! j)"
  then have i: "i < length ops" by simp
  from c h i have oi: "get_data_offset (ops ! i) = blob_bytes_before ops i"
    and oj: "get_data_offset (ops ! j) = blob_bytes_before ops j"
    by (simp_all add: offsets_are_cumulative_def)
  from pos h i have "0 < get_data_length (ops ! i)" by simp
  then have p: "0 < unat (get_data_length (ops ! i))" by (simp add: word_less_nat_alt)
  have "take (Suc i) ops = take i ops @ [ops ! i]" using i by (rule take_Suc_conv_app_nth)
  then have "total_blob_bytes (take (Suc i) ops)
      = total_blob_bytes (take i ops) + unat (get_data_length (ops ! i))"
    using h by (simp add: total_blob_bytes_append) (simp add: total_blob_bytes_def)
  moreover have "total_blob_bytes (take (Suc i) ops) \<le> total_blob_bytes (take j ops)"
    using h by (intro total_blob_bytes_take_mono) simp
  ultimately have "total_blob_bytes (take i ops) < total_blob_bytes (take j ops)"
    using p by simp
  then show "get_data_offset (ops ! i) < get_data_offset (ops ! j)"
    by (simp add: oi oj word_less_nat_alt unat_blob_bytes_before [OF tot])
qed

lemma AddOperationHash_fields:
  "AddOperationHash env operation buf = Some hashed \<Longrightarrow>
     data_length hashed = data_length operation \<and> data_offset hashed = data_offset operation"
  by (auto simp: AddOperationHash_def split: option.splits)

lemma reorder_aops_checked:
  "reorder_aops env in_file xs (n, out) = Inr (xs', n', out') \<Longrightarrow>
     check_aops xs' n = Some n' \<and> (n = of_nat (length out) \<longrightarrow> n' = of_nat (length out'))"
proof (induction xs arbitrary: n out xs')
  case Nil
  then show ?case by simp
next
  case (Cons x xs)
  show ?case
  proof (cases "has_data_offset (aop_op x)")
    case False
    with Cons.prems obtain r where r: "reorder_aops env in_file xs (n, out) = Inr (r, n', out')"
      and x: "xs' = x # r"
      by (auto split: sum.splits)
    from Cons.IH [OF r] False x show ?thesis by simp
  next
    case True
    with Cons.prems obtain buf hashed r where
      len: "length buf = unat (get_data_length (aop_op x))"
      and hs: "AddOperationHash env (aop_op x) buf = Some hashed"
      and r: "reorder_aops env in_file xs (n + of_nat (length buf), out @ buf) = Inr (r, n', out')"
      and x: "xs' = x\<lparr>aop_op := hashed\<lparr>data_offset := Some n\<rparr>\<rparr> # r"
      by (auto split: sum.splits option.splits if_splits)
    from AddOperationHash_fields [OF hs]
    have l: "get_data_length (hashed\<lparr>data_offset := Some n\<rparr>) = get_data_length (aop_op x)"
      by (simp add: get_data_length_def)
    have b: "(of_nat (length buf) :: uint64) = get_data_length (aop_op x)"
      by (simp add: len)
    from Cons.IH [OF r] show ?thesis
      by (simp add: x has_data_offset_def get_data_offset_def l b)
  qed
qed

lemma reorder_parts_checked:
  "reorder_parts env in_file parts (n, out) = Inr (parts', n', out') \<Longrightarrow>
     check_parts parts' n = Some n' \<and> (n = of_nat (length out) \<longrightarrow> n' = of_nat (length out'))"
proof (induction parts arbitrary: n out parts')
  case Nil
  then show ?case by simp
next
  case (Cons p ps)
  from Cons.prems obtain a k o1 r where
    a: "reorder_aops env in_file (aops p) (n, out) = Inr (a, k, o1)"
    and r: "reorder_parts env in_file ps (k, o1) = Inr (r, n', out')"
    and p: "parts' = p\<lparr>aops := a\<rparr> # r"
    by (auto split: sum.splits)
  from reorder_aops_checked [OF a] Cons.IH [OF r] show ?case
    by (simp add: p)
qed

lemma WritePayload_blobs:
  assumes "WritePayload env pf data_blobs key = Inr w"
  shows "\<exists>ordered. written_file w = WritePayload_static env (Some ordered) key (major_version pf) (written_manifest w)
     \<and> (key \<noteq> [] \<longrightarrow> get_signatures_offset (written_manifest w) = of_nat (length ordered))"
proof -
  from assms obtain in_file parts n ordered k where
    r: "reorder_parts env in_file (part_vec pf) (0, []) = Inr (parts, n, ordered)"
    and c: "check_parts parts 0 = Some k"
    and f: "written_file w = WritePayload_static env (Some ordered) key (major_version pf) (written_manifest w)"
    and s: "key \<noteq> [] \<longrightarrow> get_signatures_offset (written_manifest w) = k"
    by (auto simp: WritePayload_def ReorderDataBlobs_def Let_def AddSignatureToManifest_def
        get_signatures_offset_def
        split: sum.splits option.splits prod.splits if_splits)
  from reorder_parts_checked [OF r] c have "k = of_nat (length ordered)" by simp
  with f s show ?thesis by blast
qed

lemmas payload_eval =
  WritePayload_def ReorderDataBlobs_def pread_def AddOperationHash_def partition_update_of_def
  payload_of_def bare_partition_def blob_op_def toy_env_def IsEmpty_def no_extent_def
  has_data_offset_def has_data_length_def get_data_offset_def get_data_length_def
  AddSignatureToManifest_def emitted_operations_def Let_def

lemma zero_blob_ok: "\<not> isl (WritePayload toy_env zero_blob_payload (Some []) [])"
  by (simp add: zero_blob_payload_def payload_eval)

lemma zero_blob_ops:
  "emitted_operations (written_manifest (projr (WritePayload toy_env zero_blob_payload (Some []) [])))
     = [(blob_op 0 0)\<lparr>data_sha256_hash := Some []\<rparr>, (blob_op 0 0)\<lparr>data_sha256_hash := Some []\<rparr>]"
  by (simp add: zero_blob_payload_def payload_eval)

lemma two_blob_ok: "\<not> isl (WritePayload toy_env two_blob_payload (Some [1, 2, 3, 4]) [])"
  by (simp add: two_blob_payload_def payload_eval)

lemma two_blob_ops:
  "emitted_operations (written_manifest (projr (WritePayload toy_env two_blob_payload (Some [1, 2, 3, 4]) [])))
     = [(blob_op 0 2)\<lparr>data_sha256_hash := Some []\<rparr>, (blob_op 2 2)\<lparr>data_sha256_hash := Some []\<rparr>]"
  by (simp add: two_blob_payload_def payload_eval)


text \<open>
  Claim C1, as amended. In every manifest that \<open>WritePayload\<close> writes, over the operations
  of all partitions in the order written, the data offset of an operation that has one is
  the sum (in 64-bit arithmetic, from 0) of the data lengths of the operations with a
  blob before it. The offsets increase strictly when every operation with a blob has a
  length above 0 and the blobs together have fewer than \<open>2^64\<close> bytes.
\<close>

theorem data_offsets_are_running_sums:
  assumes "WritePayload env pf data_blobs private_key_path = Inr w"
  shows "offsets_are_cumulative (emitted_operations (written_manifest w))
    \<and> ((\<forall>operation \<in> set (emitted_operations (written_manifest w)).
           has_data_offset operation \<longrightarrow> 0 < get_data_length operation)
        \<and> total_blob_bytes (emitted_operations (written_manifest w)) < 2 ^ 64
        \<longrightarrow> offsets_strictly_increase (emitted_operations (written_manifest w)))"
  using WritePayload_cumulative [OF assms] cumulative_strict by blast

text \<open>
  Two operations with a blob of length 0 are written with the same data offset 0.
\<close>

theorem blobs_of_length_zero_share_their_offset:
  "\<not> isl (WritePayload toy_env zero_blob_payload (Some []) [])
   \<and> map get_data_offset (emitted_operations (written_manifest
        (projr (WritePayload toy_env zero_blob_payload (Some []) [])))) = [0, 0]
   \<and> \<not> offsets_strictly_increase (emitted_operations (written_manifest
        (projr (WritePayload toy_env zero_blob_payload (Some []) []))))"
proof -
  have "\<not> offsets_strictly_increase
      [(blob_op 0 0)\<lparr>data_sha256_hash := Some []\<rparr>, (blob_op 0 0)\<lparr>data_sha256_hash := Some []\<rparr>]"
    unfolding offsets_strictly_increase_def
    by (simp add: blob_op_def has_data_offset_def get_data_offset_def)
      (rule exI [of _ 0], rule exI [of _ 1], simp)
  then show ?thesis
    by (simp add: zero_blob_ok zero_blob_ops) (simp add: blob_op_def get_data_offset_def)
qed

theorem data_offsets_witness:
  "\<not> isl (WritePayload toy_env two_blob_payload (Some [1, 2, 3, 4]) [])
   \<and> map get_data_offset (emitted_operations (written_manifest
        (projr (WritePayload toy_env two_blob_payload (Some [1, 2, 3, 4]) [])))) = [0, 2]
   \<and> offsets_are_cumulative (emitted_operations (written_manifest
        (projr (WritePayload toy_env two_blob_payload (Some [1, 2, 3, 4]) []))))
   \<and> offsets_strictly_increase (emitted_operations (written_manifest
        (projr (WritePayload toy_env two_blob_payload (Some [1, 2, 3, 4]) []))))"
proof -
  define r where "r = WritePayload toy_env two_blob_payload (Some [1, 2, 3, 4]) []"
  have ok: "\<not> isl r" unfolding r_def by (rule two_blob_ok)
  then have w: "r = Inr (projr r)" by (cases r) simp_all
  have ops: "emitted_operations (written_manifest (projr r))
     = [(blob_op 0 2)\<lparr>data_sha256_hash := Some []\<rparr>, (blob_op 2 2)\<lparr>data_sha256_hash := Some []\<rparr>]"
    unfolding r_def by (rule two_blob_ops)
  have pos: "\<forall>operation \<in> set (emitted_operations (written_manifest (projr r))).
      has_data_offset operation \<longrightarrow> 0 < get_data_length operation"
    by (simp add: ops blob_op_def get_data_length_def)
  have tot: "total_blob_bytes (emitted_operations (written_manifest (projr r))) < 2 ^ 64"
    by (simp add: ops total_blob_bytes_def blob_op_def get_data_length_def has_data_offset_def)
  have offs: "map get_data_offset (emitted_operations (written_manifest (projr r))) = [0, 2]"
    by (simp add: ops blob_op_def get_data_offset_def)
  from data_offsets_are_running_sums [OF w [unfolded r_def]] pos tot ok offs
  show ?thesis unfolding r_def by blast
qed

subsection \<open>The layout of the file\<close>

lemma length_be [simp]: "length (be64 w) = 8" "length (be32 v) = 4"
  by (simp_all add: be64_def be32_def)

lemma length_kDeltaMagic [simp]: "length kDeltaMagic = 4"
  by (simp add: kDeltaMagic_def)

lemma unat_of_nat_small: "n < 2 ^ 64 \<Longrightarrow> unat (word_of_nat n :: uint64) = n"
proof -
  assume n: "n < 2 ^ 64"
  have "unat (word_of_nat n :: uint64) = n mod 2 ^ LENGTH(64)" by (rule unat_of_nat)
  also have "\<dots> = n" using n by simp
  finally show ?thesis .
qed

lemma unat_24_plus:
  assumes "n < 2 ^ 64 - 24"
  shows "unat (24 + word_of_nat n :: uint64) = 24 + n"
proof -
  from assms have "24 + n < 2 ^ 64" by simp
  then have "unat (word_of_nat (24 + n) :: uint64) = 24 + n" by (rule unat_of_nat_small)
  then show ?thesis by simp
qed

lemma be32_inject: "be32 a = be32 b \<longleftrightarrow> a = b"
proof
  assume "be32 a = be32 b"
  then have "unat a = unat b" using be32_value [of a] be32_value [of b] by simp
  then show "a = b" by (simp add: word_unat_eq_iff)
qed simp

lemma WritePayload_static_parts:
  assumes "WritePayload_static env ordered_blobs key major m = Inr (file, metadata_size)"
  shows "\<exists>sm msig blobs sig.
      SerializeToString env m = Some sm \<and> ordered_blobs = Some blobs
    \<and> file = (kDeltaMagic @ be64 major @ be64 (of_nat (length sm))
                @ be32 (ucast (get_signatures_size m)) @ sm) @ msig @ blobs @ sig
    \<and> metadata_size = 24 + of_nat (length sm)
    \<and> (key = [] \<longrightarrow> msig = [] \<and> sig = [])
    \<and> (key \<noteq> [] \<longrightarrow>
          (\<exists>h. RawHashOfFile env (kDeltaMagic @ be64 major @ be64 (of_nat (length sm))
                  @ be32 (ucast (get_signatures_size m)) @ sm) metadata_size = Some h
              \<and> SignHashWithKeys env h [key] = Some msig))"
proof (cases "key = []")
  case True
  with assms show ?thesis
    by (auto simp: WritePayload_static_def Let_def split: option.splits)
next
  case False
  with assms show ?thesis
    by (auto simp: WritePayload_static_def Let_def split: option.splits)
qed

lemma WritePayload_signatures_size:
  assumes "WritePayload env pf data_blobs key = Inr w" and "key \<noteq> []"
  shows "SignatureBlobLength env [key] = Some (get_signatures_size (written_manifest w))"
  using assms
  by (auto simp: WritePayload_def Let_def AddSignatureToManifest_def get_signatures_size_def
      split: sum.splits option.splits prod.splits if_splits)

text \<open>
  Claim C2, as amended. A file written by \<open>WritePayload\<close> begins with the 4 bytes of the
  magic, then the major version in 8 bytes, the length of the serialised manifest in 8
  bytes and the signature size of the manifest (its low 32 bits) in 4 bytes, each with its
  most significant byte first, then the serialised manifest. After it come the metadata
  signature, the data blobs and the payload signature; with an empty key path the two
  signatures are empty, otherwise the metadata signature is what \<open>SignHashWithKeys\<close>
  gives for the hash of the metadata. The file has the framing of the specification,
  where the 4 bytes hold the length of the metadata signature, exactly when the signature
  size of the manifest (its low 32 bits) is the length of the metadata signature that is
  written. The metadata size given back is 4 + 8 + 8 + 4 + the length of the serialised
  manifest (a length that fits in 64 bits with the 24 bytes).
\<close>

theorem payload_header_layout:
  assumes "WritePayload_static env ordered_blobs private_key_path major m = Inr (file, metadata_size)"
  shows "\<exists>serialized_manifest metadata_signature blobs signature.
      SerializeToString env m = Some serialized_manifest
    \<and> ordered_blobs = Some blobs
    \<and> file = kDeltaMagic @ be64 major @ be64 (of_nat (length serialized_manifest))
         @ be32 (ucast (get_signatures_size m)) @ serialized_manifest
         @ metadata_signature @ blobs @ signature
    \<and> length kDeltaMagic = 4 \<and> length (be64 major) = 8
    \<and> length (be64 (of_nat (length serialized_manifest))) = 8
    \<and> length (be32 (ucast (get_signatures_size m))) = 4
    \<and> metadata_size = of_nat (4 + 8 + 8 + 4 + length serialized_manifest)
    \<and> (length serialized_manifest < 2 ^ 64 - 24 \<longrightarrow>
          unat metadata_size = 4 + 8 + 8 + 4 + length serialized_manifest)
    \<and> (private_key_path = [] \<longrightarrow> metadata_signature = [] \<and> signature = [])
    \<and> (private_key_path \<noteq> [] \<longrightarrow>
          (\<exists>metadata_hash.
              RawHashOfFile env (kDeltaMagic @ be64 major @ be64 (of_nat (length serialized_manifest))
                @ be32 (ucast (get_signatures_size m)) @ serialized_manifest) metadata_size
                = Some metadata_hash
            \<and> SignHashWithKeys env metadata_hash [private_key_path] = Some metadata_signature))
    \<and> ((file = framed_payload major serialized_manifest metadata_signature blobs signature)
         = ((ucast (get_signatures_size m) :: uint32) = of_nat (length metadata_signature)))"
proof -
  from WritePayload_static_parts [OF assms] obtain sm msig blobs sig where
    sm: "SerializeToString env m = Some sm" and ob: "ordered_blobs = Some blobs"
    and fl: "file = (kDeltaMagic @ be64 major @ be64 (of_nat (length sm))
                @ be32 (ucast (get_signatures_size m)) @ sm) @ msig @ blobs @ sig"
    and mz: "metadata_size = 24 + of_nat (length sm)"
    and unsigned: "private_key_path = [] \<longrightarrow> msig = [] \<and> sig = []"
    and signed: "private_key_path \<noteq> [] \<longrightarrow>
          (\<exists>h. RawHashOfFile env (kDeltaMagic @ be64 major @ be64 (of_nat (length sm))
                  @ be32 (ucast (get_signatures_size m)) @ sm) metadata_size = Some h
              \<and> SignHashWithKeys env h [private_key_path] = Some msig)"
    by blast
  have size: "metadata_size = of_nat (4 + 8 + 8 + 4 + length sm)" using mz by simp
  have fits: "length sm < 2 ^ 64 - 24 \<longrightarrow> unat metadata_size = 4 + 8 + 8 + 4 + length sm"
    using mz by (simp add: unat_24_plus)
  have framing: "(file = framed_payload major sm msig blobs sig)
         = ((ucast (get_signatures_size m) :: uint32) = of_nat (length msig))"
    unfolding fl framed_payload_def by (simp add: be32_inject)
  from fl have fl': "file = kDeltaMagic @ be64 major @ be64 (of_nat (length sm))
         @ be32 (ucast (get_signatures_size m)) @ sm @ msig @ blobs @ sig" by simp
  show ?thesis
    apply (rule exI [of _ sm], rule exI [of _ msig], rule exI [of _ blobs], rule exI [of _ sig])
    using sm ob fl' size fits unsigned signed framing
    apply (intro conjI)
    apply (simp_all only: length_be length_kDeltaMagic)
    done
qed

text \<open>The example payloads, as the static \<open>WritePayload\<close> writes them.\<close>

lemma sized_write:
  "WritePayload_static toy_env (Some [1, 2, 3]) [] 2 sized_manifest
    = Inr (kDeltaMagic @ be64 2 @ be64 16 @ be32 2 @ (be64 0 @ be64 2) @ [1, 2, 3], 40)"
  by (simp add: WritePayload_static_def toy_env_def get_signatures_size_def sized_manifest_def
      get_signatures_offset_def Let_def)

lemma plain_write:
  "WritePayload_static toy_env (Some [1, 2, 3]) [] 2 plain_manifest
    = Inr (kDeltaMagic @ be64 2 @ be64 16 @ be32 0 @ (be64 0 @ be64 0) @ [1, 2, 3], 40)"
  by (simp add: WritePayload_static_def toy_env_def get_signatures_size_def plain_manifest_def
      get_signatures_offset_def Let_def)

lemma signed_write:
  "WritePayload_static toy_env (Some [1, 2, 3]) ''key.pem'' 2 signed_manifest
    = Inr (kDeltaMagic @ be64 2 @ be64 16 @ be32 1 @ (be64 3 @ be64 1) @ [0xAA] @ [1, 2, 3] @ [0xBB], 40)"
  by (simp add: WritePayload_static_def toy_env_def get_signatures_size_def signed_manifest_def
      get_signatures_offset_def Let_def RawHashOfFile_def)

lemma toy_serialized:
  "SerializeToString toy_env plain_manifest = Some sm \<longleftrightarrow> sm = be64 0 @ be64 0"
  "SerializeToString toy_env signed_manifest = Some sm \<longleftrightarrow> sm = be64 3 @ be64 1"
  by (auto simp: toy_env_def plain_manifest_def signed_manifest_def get_signatures_size_def
      get_signatures_offset_def)

lemma toy_signature: "SignHashWithKeys toy_env h keys = Some s \<longleftrightarrow> s = [0xAA]"
  by (auto simp: toy_env_def)

text \<open>
  The 4 bytes are not the length of the metadata signature: for a manifest that carries a
  signature size of 2 and an empty key path, \<open>WritePayload\<close> writes 2 into the 4 bytes
  (the bytes 20 to 23 of the file) and no metadata signature at all; the 3 bytes of the
  blobs come right after the 40 bytes of the metadata. The framing of the specification
  would hold 0 in the 4 bytes.
\<close>

theorem length_field_is_not_the_length_of_the_metadata_signature:
  "WritePayload_static toy_env (Some [1, 2, 3]) [] 2 sized_manifest
    = Inr (kDeltaMagic @ be64 2 @ be64 16 @ be32 2 @ (be64 0 @ be64 2) @ [1, 2, 3], 40)
   \<and> SerializeToString toy_env sized_manifest = Some (be64 0 @ be64 2)
   \<and> take 4 (drop 20 (kDeltaMagic @ be64 2 @ be64 16 @ be32 2 @ (be64 0 @ be64 2) @ [1, 2, 3]))
       = [0, 0, 0, 2]
   \<and> drop 40 (kDeltaMagic @ be64 2 @ be64 16 @ be32 2 @ (be64 0 @ be64 2) @ [1, 2, 3]) = [1, 2, 3]
   \<and> be32 (of_nat (length ([] :: bytes))) = [0, 0, 0, 0]
   \<and> kDeltaMagic @ be64 2 @ be64 16 @ be32 2 @ (be64 0 @ be64 2) @ [1, 2, 3]
       \<noteq> framed_payload 2 (be64 0 @ be64 2) [] [1, 2, 3] []"
proof -
  have a: "be32 2 = [0, 0, 0, 2]" "be32 (of_nat (length ([] :: bytes))) = [0, 0, 0, 0]"
    by (simp_all add: be32_def)
  have b: "SerializeToString toy_env sized_manifest = Some (be64 0 @ be64 2)"
    by (simp add: toy_env_def sized_manifest_def get_signatures_size_def get_signatures_offset_def)
  have c: "kDeltaMagic @ be64 2 @ be64 16 @ be32 2 @ (be64 0 @ be64 2) @ [1, 2, 3]
       \<noteq> framed_payload 2 (be64 0 @ be64 2) [] [1, 2, 3] []"
    by (simp add: framed_payload_def be32_inject)
  have d: "take 4 (drop 20 (kDeltaMagic @ be64 2 @ be64 16 @ be32 2 @ (be64 0 @ be64 2) @ [1, 2, 3]))
       = [0, 0, 0, 2]"
    by (simp add: a)
  have e: "drop 40 (kDeltaMagic @ be64 2 @ be64 16 @ be32 2 @ (be64 0 @ be64 2) @ [1, 2, 3]) = [1, 2, 3]"
    by simp
  from a(2) b c d e sized_write show ?thesis by (intro conjI)
qed

theorem payload_header_layout_witness:
  "WritePayload_static toy_env (Some [1, 2, 3]) [] 2 plain_manifest
     = Inr (framed_payload 2 (be64 0 @ be64 0) [] [1, 2, 3] [], 40)
   \<and> WritePayload_static toy_env (Some [1, 2, 3]) ''key.pem'' 2 signed_manifest
     = Inr (framed_payload 2 (be64 3 @ be64 1) [0xAA] [1, 2, 3] [0xBB], 40)
   \<and> (40 :: uint64) = of_nat (4 + 8 + 8 + 4 + length (be64 3 @ be64 1))
   \<and> unat (40 :: uint64) = 4 + 8 + 8 + 4 + length (be64 3 @ be64 1)
   \<and> (ucast (get_signatures_size plain_manifest) :: uint32) = of_nat (length ([] :: bytes))
   \<and> (ucast (get_signatures_size signed_manifest) :: uint32) = of_nat (length [0xAA :: byte])"
proof -
  define F0 where "F0 = kDeltaMagic @ be64 2 @ be64 16 @ be32 0 @ (be64 0 @ be64 0) @ [1, 2, 3]"
  define F1 where "F1 = kDeltaMagic @ be64 2 @ be64 16 @ be32 1 @ (be64 3 @ be64 1) @ [0xAA] @ [1, 2, 3] @ [0xBB]"
  have w0: "WritePayload_static toy_env (Some [1, 2, 3]) [] 2 plain_manifest = Inr (F0, 40)"
    unfolding F0_def by (rule plain_write)
  have w1: "WritePayload_static toy_env (Some [1, 2, 3]) ''key.pem'' 2 signed_manifest = Inr (F1, 40)"
    unfolding F1_def by (rule signed_write)
  have s0: "(ucast (get_signatures_size plain_manifest) :: uint32) = of_nat (length ([] :: bytes))"
    by (simp add: plain_manifest_def get_signatures_size_def)
  have s1: "(ucast (get_signatures_size signed_manifest) :: uint32) = of_nat (length [0xAA :: byte])"
    by (simp add: signed_manifest_def get_signatures_size_def)
  from payload_header_layout [OF w0] obtain sm0 msig0 blobs0 sig0 where
    a0: "SerializeToString toy_env plain_manifest = Some sm0"
    and b0: "Some [1, 2, 3] = Some blobs0"
    and c0: "([] :: string) = [] \<longrightarrow> msig0 = [] \<and> sig0 = []"
    and d0: "(F0 = framed_payload 2 sm0 msig0 blobs0 sig0)
       = ((ucast (get_signatures_size plain_manifest) :: uint32) = of_nat (length msig0))"
    by (elim exE conjE)
  from a0 have "sm0 = be64 0 @ be64 0" by (simp only: toy_serialized)
  moreover from b0 have "blobs0 = [1, 2, 3]" by simp
  moreover from c0 have "msig0 = []" "sig0 = []" by simp_all
  ultimately have f0: "F0 = framed_payload 2 (be64 0 @ be64 0) [] [1, 2, 3] []"
    using d0 s0 by simp
  from payload_header_layout [OF w1] obtain sm1 msig1 blobs1 sig1 where
    a1: "SerializeToString toy_env signed_manifest = Some sm1"
    and b1: "Some [1, 2, 3] = Some blobs1"
    and p1: "F1 = kDeltaMagic @ be64 2 @ be64 (of_nat (length sm1))
         @ be32 (ucast (get_signatures_size signed_manifest)) @ sm1 @ msig1 @ blobs1 @ sig1"
    and m1: "(40 :: uint64) = of_nat (4 + 8 + 8 + 4 + length sm1)"
    and u1: "length sm1 < 2 ^ 64 - 24 \<longrightarrow> unat (40 :: uint64) = 4 + 8 + 8 + 4 + length sm1"
    and c1: "''key.pem'' \<noteq> [] \<longrightarrow>
          (\<exists>metadata_hash.
              RawHashOfFile toy_env (kDeltaMagic @ be64 2 @ be64 (of_nat (length sm1))
                @ be32 (ucast (get_signatures_size signed_manifest)) @ sm1) 40
                = Some metadata_hash
            \<and> SignHashWithKeys toy_env metadata_hash [''key.pem''] = Some msig1)"
    and d1: "(F1 = framed_payload 2 sm1 msig1 blobs1 sig1)
       = ((ucast (get_signatures_size signed_manifest) :: uint32) = of_nat (length msig1))"
    by (elim exE conjE)
  from a1 have e1: "sm1 = be64 3 @ be64 1" by (simp only: toy_serialized)
  from b1 have g1: "blobs1 = [1, 2, 3]" by simp
  from c1 have h1: "msig1 = [0xAA]" by (auto simp only: toy_signature)
  from d1 s1 have f1': "F1 = framed_payload 2 (be64 3 @ be64 1) [0xAA] [1, 2, 3] sig1"
    unfolding e1 g1 h1 by simp
  from p1 have "sig1 = [0xBB]" unfolding F1_def e1 g1 h1
    by (simp add: signed_manifest_def get_signatures_size_def)
  with f1' have f1: "F1 = framed_payload 2 (be64 3 @ be64 1) [0xAA] [1, 2, 3] [0xBB]" by simp
  from u1 have u: "unat (40 :: uint64) = 4 + 8 + 8 + 4 + length (be64 3 @ be64 1 :: bytes)"
    unfolding e1 by simp
  from m1 have m: "(40 :: uint64) = of_nat (4 + 8 + 8 + 4 + length (be64 3 @ be64 1 :: bytes))"
    unfolding e1 .
  from w0 f0 have r0: "WritePayload_static toy_env (Some [1, 2, 3]) [] 2 plain_manifest
     = Inr (framed_payload 2 (be64 0 @ be64 0) [] [1, 2, 3] [], 40)" by (simp only:)
  from w1 f1 have r1: "WritePayload_static toy_env (Some [1, 2, 3]) ''key.pem'' 2 signed_manifest
     = Inr (framed_payload 2 (be64 3 @ be64 1) [0xAA] [1, 2, 3] [0xBB], 40)" by (simp only:)
  from r0 r1 m u s0 s1 show ?thesis by (intro conjI)
qed

text \<open>
  Claim C3, as amended. In a signed payload written by \<open>WritePayload\<close> (the key path is
  not empty) the file is the metadata, then the metadata signature, then the data blobs,
  then the payload signature. The payload signature begins at the byte offset: metadata
  size + length of the metadata signature + \<open>signatures_offset\<close> of the manifest, where
  \<open>signatures_offset\<close> is the length of the data blobs (equal as 64-bit numbers, and as
  numbers when the file is shorter than \<open>2^64\<close> bytes).
\<close>

theorem payload_signature_position:
  assumes "WritePayload env pf data_blobs private_key_path = Inr w"
    and "private_key_path \<noteq> []"
    and "written_file w = Inr (file, metadata_size)"
  shows "\<exists>metadata blobs metadata_hash metadata_signature signature.
      file = metadata @ metadata_signature @ blobs @ signature
    \<and> RawHashOfFile env metadata metadata_size = Some metadata_hash
    \<and> SignHashWithKeys env metadata_hash [private_key_path] = Some metadata_signature
    \<and> SignPayload env (metadata @ metadata_signature @ blobs) [private_key_path] metadata_size
         (get_signatures_size (written_manifest w))
         (metadata_size + get_signatures_size (written_manifest w)
            + get_signatures_offset (written_manifest w)) = Some signature
    \<and> metadata_size = of_nat (length metadata)
    \<and> get_signatures_offset (written_manifest w) = of_nat (length blobs)
    \<and> (of_nat (length (metadata @ metadata_signature @ blobs)) :: uint64)
         = metadata_size + of_nat (length metadata_signature)
             + get_signatures_offset (written_manifest w)
    \<and> (length file < 2 ^ 64 \<longrightarrow>
          length (metadata @ metadata_signature @ blobs)
            = unat metadata_size + length metadata_signature
                + unat (get_signatures_offset (written_manifest w)))"
proof -
  from WritePayload_blobs [OF assms(1)] assms(2,3) obtain ordered where
    f: "WritePayload_static env (Some ordered) private_key_path (major_version pf) (written_manifest w)
          = Inr (file, metadata_size)"
    and o: "get_signatures_offset (written_manifest w) = of_nat (length ordered)"
    by auto
  from f assms(2) obtain sm hash msig sig where
    sm: "SerializeToString env (written_manifest w) = Some sm"
    and h: "RawHashOfFile env (kDeltaMagic @ be64 (major_version pf) @ be64 (of_nat (length sm))
              @ be32 (ucast (get_signatures_size (written_manifest w))) @ sm) metadata_size = Some hash"
    and ms: "SignHashWithKeys env hash [private_key_path] = Some msig"
    and sg: "SignPayload env ((kDeltaMagic @ be64 (major_version pf) @ be64 (of_nat (length sm))
              @ be32 (ucast (get_signatures_size (written_manifest w))) @ sm) @ msig @ ordered)
              [private_key_path] metadata_size (get_signatures_size (written_manifest w))
              (metadata_size + get_signatures_size (written_manifest w)
                + get_signatures_offset (written_manifest w)) = Some sig"
    and fl: "file = (kDeltaMagic @ be64 (major_version pf) @ be64 (of_nat (length sm))
              @ be32 (ucast (get_signatures_size (written_manifest w))) @ sm) @ msig @ ordered @ sig"
    and mz: "metadata_size = 24 + of_nat (length sm)"
    by (auto simp: WritePayload_static_def Let_def split: option.splits if_splits)
  define metadata where "metadata = kDeltaMagic @ be64 (major_version pf) @ be64 (of_nat (length sm))
              @ be32 (ucast (get_signatures_size (written_manifest w))) @ sm"
  have lm: "length metadata = 24 + length sm" by (simp add: metadata_def)
  have m: "metadata_size = of_nat (length metadata)" by (simp add: lm mz)
  have w64: "(of_nat (length (metadata @ msig @ ordered)) :: uint64)
      = metadata_size + of_nat (length msig) + get_signatures_offset (written_manifest w)"
    by (simp add: m o)
  have n64: "length (metadata @ msig @ ordered)
      = unat metadata_size + length msig + unat (get_signatures_offset (written_manifest w))"
    if "length file < 2 ^ 64"
  proof -
    from that have "length metadata < 2 ^ 64" "length ordered < 2 ^ 64"
      by (simp_all add: fl metadata_def)
    then have "unat (of_nat (length metadata) :: uint64) = length metadata"
      "unat (of_nat (length ordered) :: uint64) = length ordered"
      by (simp_all add: unat_of_nat_small)
    then show ?thesis by (simp add: m o)
  qed
  from h ms sg fl m o w64 n64 show ?thesis
    unfolding metadata_def [symmetric] by blast
qed

lemma one_blob_ok: "\<not> isl (WritePayload toy_env one_blob_payload (Some [1, 2, 3]) ''key.pem'')"
  by (simp add: one_blob_payload_def payload_eval)

lemma one_blob_offset:
  "get_signatures_offset (written_manifest
      (projr (WritePayload toy_env one_blob_payload (Some [1, 2, 3]) ''key.pem''))) = 3"
  by (simp add: one_blob_payload_def payload_eval get_signatures_offset_def)

lemma one_blob_file:
  "written_file (projr (WritePayload toy_env one_blob_payload (Some [1, 2, 3]) ''key.pem''))
     = Inr (kDeltaMagic @ be64 2 @ be64 16 @ be32 1 @ (be64 3 @ be64 1) @ [0xAA] @ [1, 2, 3] @ [0xBB], 40)"
  by (simp add: one_blob_payload_def payload_eval WritePayload_static_def RawHashOfFile_def
      get_signatures_offset_def get_signatures_size_def)

text \<open>
  A payload with one blob of 3 bytes, signed with signatures of 1 byte: the metadata has
  40 bytes and \<open>signatures_offset\<close> is 3, yet at offset 40 + 3 the file still has the
  last byte of the blob; the payload signature begins one byte later, after the metadata
  signature has been counted too.
\<close>

theorem payload_signature_is_not_at_metadata_size_plus_offset:
  "\<not> isl (WritePayload toy_env one_blob_payload (Some [1, 2, 3]) ''key.pem'')
   \<and> written_file (projr (WritePayload toy_env one_blob_payload (Some [1, 2, 3]) ''key.pem''))
       = Inr (kDeltaMagic @ be64 2 @ be64 16 @ be32 1 @ (be64 3 @ be64 1) @ [0xAA] @ [1, 2, 3] @ [0xBB], 40)
   \<and> get_signatures_offset (written_manifest
        (projr (WritePayload toy_env one_blob_payload (Some [1, 2, 3]) ''key.pem''))) = 3
   \<and> SignPayload toy_env (kDeltaMagic @ be64 2 @ be64 16 @ be32 1 @ (be64 3 @ be64 1) @ [0xAA] @ [1, 2, 3])
        [''key.pem''] 40 1 44 = Some [0xBB]
   \<and> drop (40 + 3) (kDeltaMagic @ be64 2 @ be64 16 @ be32 1 @ (be64 3 @ be64 1) @ [0xAA] @ [1, 2, 3] @ [0xBB])
       = [3, 0xBB]
   \<and> drop (40 + 1 + 3) (kDeltaMagic @ be64 2 @ be64 16 @ be32 1 @ (be64 3 @ be64 1) @ [0xAA] @ [1, 2, 3] @ [0xBB])
       = [0xBB]"
  by (simp add: one_blob_ok one_blob_file one_blob_offset) (simp add: toy_env_def)


theorem payload_signature_position_witness:
  "WritePayload toy_env one_blob_payload (Some [1, 2, 3]) ''key.pem''
     = Inr (projr (WritePayload toy_env one_blob_payload (Some [1, 2, 3]) ''key.pem''))
   \<and> ''key.pem'' \<noteq> []
   \<and> written_file (projr (WritePayload toy_env one_blob_payload (Some [1, 2, 3]) ''key.pem''))
       = Inr (kDeltaMagic @ be64 2 @ be64 16 @ be32 1 @ (be64 3 @ be64 1) @ [0xAA] @ [1, 2, 3] @ [0xBB], 40)
   \<and> (\<exists>metadata blobs metadata_signature.
         kDeltaMagic @ be64 2 @ be64 16 @ be32 1 @ (be64 3 @ be64 1) @ [0xAA] @ [1, 2, 3] @ [0xBB]
           = metadata @ metadata_signature @ blobs @ [0xBB]
       \<and> metadata_signature = [0xAA]
       \<and> length (metadata @ metadata_signature @ blobs) = 44)"
proof -
  define r where "r = WritePayload toy_env one_blob_payload (Some [1, 2, 3]) ''key.pem''"
  define F where "F = kDeltaMagic @ be64 2 @ be64 16 @ be32 1 @ (be64 3 @ be64 1) @ [0xAA] @ [1, 2, 3] @ [0xBB]"
  have "\<not> isl r" unfolding r_def by (rule one_blob_ok)
  then have a: "r = Inr (projr r)" by (cases r) simp_all
  have b: "''key.pem'' \<noteq> []" by simp
  have c: "written_file (projr r) = Inr (F, 40)" unfolding r_def F_def by (rule one_blob_file)
  have o: "get_signatures_offset (written_manifest (projr r)) = 3"
    unfolding r_def by (rule one_blob_offset)
  have l: "length F < 2 ^ 64" by (simp add: F_def)
  from payload_signature_position [OF a [unfolded r_def] b c [unfolded r_def]]
  obtain metadata blobs metadata_hash metadata_signature signature where
    1: "F = metadata @ metadata_signature @ blobs @ signature"
    and 2: "SignHashWithKeys toy_env metadata_hash [''key.pem''] = Some metadata_signature"
    and 3: "SignPayload toy_env (metadata @ metadata_signature @ blobs) [''key.pem''] 40
         (get_signatures_size (written_manifest (projr r)))
         (40 + get_signatures_size (written_manifest (projr r))
            + get_signatures_offset (written_manifest (projr r))) = Some signature"
    and 4: "length F < 2 ^ 64 \<longrightarrow>
          length (metadata @ metadata_signature @ blobs)
            = unat (40 :: uint64) + length metadata_signature
                + unat (get_signatures_offset (written_manifest (projr r)))"
    unfolding r_def [symmetric] by blast
  from 2 have ms: "metadata_signature = [0xAA]" by (auto simp: toy_env_def)
  from 3 have sg: "signature = [0xBB]" by (auto simp: toy_env_def)
  from 4 l o ms have "length (metadata @ metadata_signature @ blobs) = 44" by simp
  with 1 ms sg have "\<exists>metadata blobs metadata_signature.
         F = metadata @ metadata_signature @ blobs @ [0xBB]
       \<and> metadata_signature = [0xAA]
       \<and> length (metadata @ metadata_signature @ blobs) = 44" by blast
  with a b c show ?thesis unfolding r_def F_def by blast
qed

section \<open>Proofs: dynamic partition control\<close>

lemma slot_suffixes: "SlotSuffixForSlotNumber 0 = ''_a''" "SlotSuffixForSlotNumber 1 = ''_b''"
  "SlotSuffixForSlotNumber (Suc 0) = ''_b''"
  by code_simp+

lemma nothing_moves: "filter (\<lambda>(a, b). a \<noteq> b) (zip xs xs) = []"
  by (simp add: zip_same_conv_map filter_empty_conv)

lemma OptimizeSourceCopyOperation_same:
  assumes "src_extents operation = dst_extents operation"
  shows "OptimizeSourceCopyOperation operation
    = Some (operation\<lparr>src_extents := [], dst_extents := []\<rparr>)"
  by (simp add: OptimizeSourceCopyOperation_def assms nothing_moves extents_of_def Let_def)

text \<open>
  Claim C8. A \<open>SOURCE_COPY\<close> operation whose source extents are its destination extents,
  on a partition of the target slot that is dynamic (among the mapped devices) with
  Virtual A/B and snapshots on the target: \<open>OptimizeOperation\<close> succeeds, and the operation
  it gives has no source extent and no destination extent, so nothing is left to read or
  write.
\<close>

theorem identical_source_copy_is_optimised_away:
  assumes "op_type operation = SOURCE_COPY"
    and "src_extents operation = dst_extents operation"
    and "target_supports_snapshot dc" and "virtual_ab_enabled dc"
    and "name @ SlotSuffixForSlotNumber (target_slot dc) \<in> set (mapped_devices dc)"
  shows "\<exists>optimized. OptimizeOperation dc name operation = Some optimized
    \<and> src_extents optimized = [] \<and> dst_extents optimized = []
    \<and> blocks_of (src_extents optimized) = [] \<and> blocks_of (dst_extents optimized) = []"
  using assms
  by (simp add: OptimizeOperation_def OptimizeSourceCopyOperation_same blocks_of_def)

theorem identical_source_copy_witness:
  "op_type (copy_op [\<lparr>start_block = 0, num_blocks = 4\<rparr>] [\<lparr>start_block = 0, num_blocks = 4\<rparr>]) = SOURCE_COPY
   \<and> target_supports_snapshot snapshot_device \<and> virtual_ab_enabled snapshot_device
   \<and> ''foo'' @ SlotSuffixForSlotNumber (target_slot snapshot_device) \<in> set (mapped_devices snapshot_device)
   \<and> OptimizeOperation snapshot_device ''foo''
        (copy_op [\<lparr>start_block = 0, num_blocks = 4\<rparr>] [\<lparr>start_block = 0, num_blocks = 4\<rparr>])
       = Some (copy_op [] [])"
proof -
  let ?operation = "copy_op [\<lparr>start_block = 0, num_blocks = 4\<rparr>] [\<lparr>start_block = 0, num_blocks = 4\<rparr>]"
  have a: "op_type ?operation = SOURCE_COPY" by (simp add: copy_op_def)
  have b: "src_extents ?operation = dst_extents ?operation" by (simp add: copy_op_def)
  have c: "target_supports_snapshot snapshot_device" "virtual_ab_enabled snapshot_device"
    by (simp_all add: snapshot_device_def)
  have d: "''foo'' @ SlotSuffixForSlotNumber (target_slot snapshot_device) \<in> set (mapped_devices snapshot_device)"
    by (simp add: snapshot_device_def slot_suffixes)
  from identical_source_copy_is_optimised_away [OF a b c d]
  obtain optimized where o: "OptimizeOperation snapshot_device ''foo'' ?operation = Some optimized"
    and e: "src_extents optimized = []" "dst_extents optimized = []" by blast
  from o a b c d have "optimized = ?operation\<lparr>src_extents := [], dst_extents := []\<rparr>"
    by (simp add: OptimizeOperation_def OptimizeSourceCopyOperation_same)
  then have "optimized = copy_op [] []" by (simp add: copy_op_def)
  with o a c d show ?thesis by simp
qed

text \<open>The cases of \<open>OptimizeOperationTest\<close>.\<close>

lemma test_not_a_source_copy:
  "OptimizeOperation snapshot_device ''foo'' ((copy_op [] [])\<lparr>op_type := REPLACE\<rparr>) = None"
  by (simp add: OptimizeOperation_def copy_op_def)

lemma test_virtual_ab_disabled:
  "OptimizeOperation (snapshot_device\<lparr>virtual_ab_enabled := False\<rparr>) ''foo'' (copy_op [] []) = None"
  by (simp add: OptimizeOperation_def copy_op_def snapshot_device_def)

lemma test_no_snapshot:
  "OptimizeOperation (snapshot_device\<lparr>target_supports_snapshot := False\<rparr>) ''foo'' (copy_op [] []) = None"
  by (simp add: OptimizeOperation_def copy_op_def snapshot_device_def)

lemma test_empty:
  "OptimizeOperation snapshot_device ''foo'' (copy_op [] []) = Some (copy_op [] [])"
  by (simp add: OptimizeOperation_def copy_op_def snapshot_device_def slot_suffixes
      OptimizeSourceCopyOperation_def blocks_of_def extents_of_def)

lemma test_source_only:
  "OptimizeOperation snapshot_device ''foo'' (copy_op [\<lparr>start_block = 0, num_blocks = 1\<rparr>] []) = None"
  by (simp add: OptimizeOperation_def copy_op_def snapshot_device_def slot_suffixes
      OptimizeSourceCopyOperation_def blocks_of_def extents_of_def)

lemma test_destination_only:
  "OptimizeOperation snapshot_device ''foo'' (copy_op [] [\<lparr>start_block = 0, num_blocks = 1\<rparr>]) = None"
  by (simp add: OptimizeOperation_def copy_op_def snapshot_device_def slot_suffixes
      OptimizeSourceCopyOperation_def blocks_of_def extents_of_def)

lemma unat_small [simp]: "unat (1 :: uint64) = 1" "unat (2 :: uint64) = 2" "unat (5 :: uint64) = 5"
  by simp_all

lemma upt_small: "[0..<1] = [0]" "[0..<2] = [0, 1]" "[0..<5] = [0, 1, 2, 3, 4]"
  by (simp_all add: upt_rec)

lemma test_partly_identical:
  "OptimizeOperation snapshot_device ''foo''
     (copy_op [\<lparr>start_block = 1, num_blocks = 1\<rparr>, \<lparr>start_block = 3, num_blocks = 2\<rparr>,
               \<lparr>start_block = 7, num_blocks = 2\<rparr>]
              [\<lparr>start_block = 2, num_blocks = 5\<rparr>])
   = Some (copy_op [\<lparr>start_block = 1, num_blocks = 1\<rparr>, \<lparr>start_block = 7, num_blocks = 2\<rparr>]
                   [\<lparr>start_block = 2, num_blocks = 1\<rparr>, \<lparr>start_block = 5, num_blocks = 2\<rparr>])"
  by (simp add: OptimizeOperation_def copy_op_def snapshot_device_def slot_suffixes
      OptimizeSourceCopyOperation_def blocks_of_def extents_of_def upt_small Let_def)

lemma test_static_partition:
  "OptimizeOperation snapshot_device ''bar''
     (copy_op [\<lparr>start_block = 1, num_blocks = 1\<rparr>] [\<lparr>start_block = 1, num_blocks = 1\<rparr>]) = None"
  by (simp add: OptimizeOperation_def copy_op_def snapshot_device_def slot_suffixes)

subsection \<open>Preparing the partitions\<close>

lemma group_usage_added:
  "group_usage (md\<lparr>lp_partitions := lp_partitions md @ [p]\<rparr>) (lpp_group p)
     = group_usage md (lpp_group p) + lpp_size p"
  by (simp add: group_usage_def)

lemma add_partitions_oversize:
  "\<exists>n \<in> set ns. dpg_size g < requested_size m n \<Longrightarrow> add_partitions m sfx g ns md = None"
proof (induction ns arbitrary: md)
  case Nil
  then show ?case by simp
next
  case (Cons n ns)
  define p where "p = \<lparr>lpp_name = n @ sfx, lpp_group = dpg_name g @ sfx, lpp_size = requested_size m n\<rparr>"
  have u: "group_usage (md\<lparr>lp_partitions := lp_partitions md @ [p]\<rparr>) (dpg_name g @ sfx)
      = group_usage md (dpg_name g @ sfx) + requested_size m n"
    using group_usage_added [of md p] by (simp add: p_def)
  show ?case
  proof (cases "dpg_size g < requested_size m n")
    case True
    with u show ?thesis by (simp add: Let_def p_def)
  next
    case False
    with Cons.prems have "\<exists>n \<in> set ns. dpg_size g < requested_size m n" by simp
    from Cons.IH [OF this] show ?thesis by (simp add: Let_def)
  qed
qed

lemma add_groups_oversize:
  "\<exists>g \<in> set gs. \<exists>n \<in> set (dpg_partition_names g). dpg_size g < requested_size m n \<Longrightarrow>
     add_groups m sfx gs md = None"
proof (induction gs arbitrary: md)
  case Nil
  then show ?case by simp
next
  case (Cons g gs)
  show ?case
  proof (cases "\<exists>n \<in> set (dpg_partition_names g). dpg_size g < requested_size m n")
    case True
    then show ?thesis by (simp add: add_partitions_oversize)
  next
    case False
    with Cons.prems have "\<exists>g \<in> set gs. \<exists>n \<in> set (dpg_partition_names g). dpg_size g < requested_size m n"
      by simp
    from Cons.IH [OF this] show ?thesis by (simp split: option.splits)
  qed
qed

lemma super_size_delete_groups [simp]:
  "super_size (delete_groups_with_suffix sfx md) = super_size md"
  by (simp add: delete_groups_with_suffix_def)

lemma UpdatePartitionMetadata_oversize:
  "\<exists>g \<in> set (dp_groups m). \<exists>n \<in> set (dpg_partition_names g). dpg_size g < requested_size m n \<Longrightarrow>
     UpdatePartitionMetadata vab builder target m = None"
  by (simp add: UpdatePartitionMetadata_def Let_def add_groups_oversize)

lemma UpdatePartitionMetadata_too_big:
  "allocatable_space vab builder < sum_list (map dpg_size (dp_groups m)) \<Longrightarrow>
     UpdatePartitionMetadata vab builder target m = None"
  by (auto simp: UpdatePartitionMetadata_def Let_def allocatable_space_def)

lemma Prepare_fails_keeps_metadata:
  "\<not> fst (PreparePartitionsForUpdate dc source target m delete_source) \<Longrightarrow>
     stored_metadata (snd (PreparePartitionsForUpdate dc source target m delete_source)) = stored_metadata dc"
  by (auto simp: PreparePartitionsForUpdate_def PrepareDynamicPartitionsForUpdate_def Let_def
      split: option.splits if_splits)

text \<open>
  Claim C9, as amended. \<open>prepare_partitions_for_update\<close> fails whenever the manifest
  requests a partition larger than the maximum size of its group, or whenever the sizes
  of the requested groups together exceed what one slot may take of the super partition:
  half of its size on a device without Virtual A/B, all of it on a device with Virtual
  A/B. In both cases the metadata stored for the target slot stays as it was.
\<close>

theorem prepare_refuses_what_does_not_fit:
  assumes "(\<exists>g \<in> set (dp_groups m). \<exists>n \<in> set (dpg_partition_names g). dpg_size g < requested_size m n)
    \<or> (\<forall>loaded. source_metadata dc = Some loaded \<longrightarrow>
          (if virtual_ab_enabled dc then super_size loaded else super_size loaded div 2)
            < sum_list (map dpg_size (dp_groups m)))"
  shows "\<not> fst (PreparePartitionsForUpdate dc source target m delete_source)
    \<and> stored_metadata (snd (PreparePartitionsForUpdate dc source target m delete_source))
        = stored_metadata dc"
proof -
  have "\<not> fst (PreparePartitionsForUpdate dc source target m delete_source)"
  proof (cases "source_metadata dc")
    case None
    then show ?thesis
      by (simp add: PreparePartitionsForUpdate_def PrepareDynamicPartitionsForUpdate_def Let_def)
  next
    case (Some loaded)
    define builder where "builder = (if delete_source
        then delete_groups_with_suffix (SlotSuffixForSlotNumber source) loaded else loaded)"
    have s: "super_size builder = super_size loaded" by (simp add: builder_def)
    from assms have "UpdatePartitionMetadata (virtual_ab_enabled dc) builder target m = None"
    proof
      assume "\<exists>g \<in> set (dp_groups m). \<exists>n \<in> set (dpg_partition_names g). dpg_size g < requested_size m n"
      then show ?thesis by (rule UpdatePartitionMetadata_oversize)
    next
      assume "\<forall>loaded. source_metadata dc = Some loaded \<longrightarrow>
          (if virtual_ab_enabled dc then super_size loaded else super_size loaded div 2)
            < sum_list (map dpg_size (dp_groups m))"
      with Some s have "allocatable_space (virtual_ab_enabled dc) builder < sum_list (map dpg_size (dp_groups m))"
        by (auto simp: allocatable_space_def split: if_splits)
      then show ?thesis by (rule UpdatePartitionMetadata_too_big)
    qed
    with Some show ?thesis
      by (simp add: PreparePartitionsForUpdate_def PrepareDynamicPartitionsForUpdate_def Let_def
          builder_def)
  qed
  with Prepare_fails_keeps_metadata show ?thesis by blast
qed

lemma suffix_tests:
  "has_suffix ''_a'' ''group_a''" "\<not> has_suffix ''_b'' ''group_a''"
  "\<not> has_suffix ''_a'' ''android_b''" "has_suffix ''_b'' ''android_b''"
  "\<not> has_suffix ''_a'' ''oem_b''" "has_suffix ''_b'' ''oem_b''"
  "has_suffix ''_a'' ''android_a''" "\<not> has_suffix ''_b'' ''android_a''"
  "has_suffix ''_a'' ''oem_a''" "\<not> has_suffix ''_b'' ''oem_a''"
  by (simp_all add: has_suffix_def)

text \<open>
  With Virtual A/B and one slot of space in the super partition, the update of the test
  \<open>RecoveryErrorShouldDeleteSource\<close> is prepared and its metadata stored, although the
  group takes more than half of the super partition.
\<close>

theorem virtual_ab_update_takes_more_than_half:
  "fst (PreparePartitionsForUpdate one_slot_device 0 1 one_group_manifest True)
   \<and> stored_metadata (snd (PreparePartitionsForUpdate one_slot_device 0 1 one_group_manifest True))
       = Some \<lparr>super_size = 5 * GiB + MiB,
           lp_groups = [\<lparr>lpg_name = ''group_b'', lpg_maximum_size = 5 * GiB\<rparr>],
           lp_partitions = [\<lparr>lpp_name = ''system_b'', lpp_group = ''group_b'', lpp_size = 3 * GiB\<rparr>,
                            \<lparr>lpp_name = ''vendor_b'', lpp_group = ''group_b'', lpp_size = GiB\<rparr>]\<rparr>
   \<and> (5 * GiB + MiB) div 2 < sum_list (map dpg_size (dp_groups one_group_manifest))"
  by (simp add: PreparePartitionsForUpdate_def PrepareDynamicPartitionsForUpdate_def
      UpdatePartitionMetadata_def one_slot_device_def one_group_manifest_def slot_suffixes
      delete_groups_with_suffix_def suffix_tests allocatable_space_def group_usage_def
      total_usage_def requested_size_def GiB_def MiB_def Let_def)

text \<open>The group cases of the unit test, from slot 0 to slot 1.\<close>

lemma test_ResizeWithinGroup:
  "UpdatePartitionMetadata False group_test_metadata 1 (group_manifest (3 * GiB) (3 * GiB) (2 * GiB) (2 * GiB))
    = Some \<lparr>super_size = 10 * GiB + MiB,
        lp_groups = [\<lparr>lpg_name = ''android_a'', lpg_maximum_size = 3 * GiB\<rparr>,
                     \<lparr>lpg_name = ''oem_a'', lpg_maximum_size = 2 * GiB\<rparr>,
                     \<lparr>lpg_name = ''android_b'', lpg_maximum_size = 3 * GiB\<rparr>,
                     \<lparr>lpg_name = ''oem_b'', lpg_maximum_size = 2 * GiB\<rparr>],
        lp_partitions = [\<lparr>lpp_name = ''system_a'', lpp_group = ''android_a'', lpp_size = 2 * GiB\<rparr>,
                         \<lparr>lpp_name = ''vendor_a'', lpp_group = ''oem_a'', lpp_size = GiB\<rparr>,
                         \<lparr>lpp_name = ''system_b'', lpp_group = ''android_b'', lpp_size = 3 * GiB\<rparr>,
                         \<lparr>lpp_name = ''vendor_b'', lpp_group = ''oem_b'', lpp_size = 2 * GiB\<rparr>]\<rparr>"
  by (simp add: UpdatePartitionMetadata_def group_test_metadata_def group_manifest_def slot_suffixes
      delete_groups_with_suffix_def suffix_tests allocatable_space_def group_usage_def
      total_usage_def requested_size_def GiB_def MiB_def Let_def)

lemma test_NotEnoughSpaceForGroup:
  "UpdatePartitionMetadata False group_test_metadata 1 (group_manifest (3 * GiB) GiB (2 * GiB) (3 * GiB)) = None"
  by (simp add: UpdatePartitionMetadata_def group_test_metadata_def group_manifest_def slot_suffixes
      delete_groups_with_suffix_def suffix_tests allocatable_space_def group_usage_def
      total_usage_def requested_size_def GiB_def MiB_def Let_def)

lemma test_GroupTooBig:
  "UpdatePartitionMetadata False group_test_metadata 1
     \<lparr>dp_groups = [\<lparr>dpg_name = ''android'', dpg_size = 3 * GiB, dpg_partition_names = []\<rparr>,
                   \<lparr>dpg_name = ''oem'', dpg_size = 3 * GiB, dpg_partition_names = []\<rparr>],
      dp_partition_sizes = []\<rparr> = None"
  by (simp add: UpdatePartitionMetadata_def group_test_metadata_def
      delete_groups_with_suffix_def allocatable_space_def GiB_def MiB_def Let_def)

theorem prepare_refuses_witness:
  "dpg_size (dp_groups (group_manifest (3 * GiB) GiB (2 * GiB) (3 * GiB)) ! 1)
     < requested_size (group_manifest (3 * GiB) GiB (2 * GiB) (3 * GiB)) ''vendor''
   \<and> \<not> fst (PreparePartitionsForUpdate launch_device 0 1 (group_manifest (3 * GiB) GiB (2 * GiB) (3 * GiB)) True)
   \<and> stored_metadata (snd (PreparePartitionsForUpdate launch_device 0 1
        (group_manifest (3 * GiB) GiB (2 * GiB) (3 * GiB)) True)) = None
   \<and> source_metadata launch_device = Some group_test_metadata
   \<and> super_size group_test_metadata div 2
        < sum_list (map dpg_size (dp_groups (group_manifest (3 * GiB) GiB (3 * GiB) GiB)))
   \<and> \<not> fst (PreparePartitionsForUpdate launch_device 0 1 (group_manifest (3 * GiB) GiB (3 * GiB) GiB) True)"
proof -
  have v: "dpg_size (dp_groups (group_manifest (3 * GiB) GiB (2 * GiB) (3 * GiB)) ! 1)
     < requested_size (group_manifest (3 * GiB) GiB (2 * GiB) (3 * GiB)) ''vendor''"
    by (simp add: group_manifest_def requested_size_def GiB_def)
  have a: "\<exists>g \<in> set (dp_groups (group_manifest (3 * GiB) GiB (2 * GiB) (3 * GiB))).
      \<exists>n \<in> set (dpg_partition_names g).
        dpg_size g < requested_size (group_manifest (3 * GiB) GiB (2 * GiB) (3 * GiB)) n"
    by (simp add: group_manifest_def requested_size_def GiB_def)
  have l: "source_metadata launch_device = Some group_test_metadata"
    by (simp add: launch_device_def)
  have h: "super_size group_test_metadata div 2
        < sum_list (map dpg_size (dp_groups (group_manifest (3 * GiB) GiB (3 * GiB) GiB)))"
    by (simp add: group_test_metadata_def group_manifest_def GiB_def MiB_def)
  have b: "\<forall>loaded. source_metadata launch_device = Some loaded \<longrightarrow>
          (if virtual_ab_enabled launch_device then super_size loaded else super_size loaded div 2)
            < sum_list (map dpg_size (dp_groups (group_manifest (3 * GiB) GiB (3 * GiB) GiB)))"
    using h by (simp add: launch_device_def)
  have c: "stored_metadata launch_device = None" by (simp add: launch_device_def)
  from prepare_refuses_what_does_not_fit [of "group_manifest (3 * GiB) GiB (2 * GiB) (3 * GiB)" launch_device 0 1 True, OF disjI1, OF a]
    prepare_refuses_what_does_not_fit [of "group_manifest (3 * GiB) GiB (3 * GiB) GiB" launch_device 0 1 True, OF disjI2, OF b]
    v l h c
  show ?thesis by simp
qed

text \<open>
  Claim C10. \<open>prepare_partitions_for_update\<close> fails whenever the target slot is the source
  slot, whatever the manifest holds, and it changes neither the metadata stored for the
  target slot nor the metadata of the source slot.
\<close>

theorem prepare_refuses_the_current_slot:
  "\<not> fst (PreparePartitionsForUpdate dc slot slot m delete_source)
   \<and> stored_metadata (snd (PreparePartitionsForUpdate dc slot slot m delete_source)) = stored_metadata dc
   \<and> source_metadata (snd (PreparePartitionsForUpdate dc slot slot m delete_source)) = source_metadata dc"
  by (simp add: PreparePartitionsForUpdate_def Let_def)

theorem prepare_refuses_the_current_slot_witness:
  "\<not> fst (PreparePartitionsForUpdate launch_device 1 1 \<lparr>dp_groups = [], dp_partition_sizes = []\<rparr> True)
   \<and> stored_metadata (snd (PreparePartitionsForUpdate launch_device 1 1
        \<lparr>dp_groups = [], dp_partition_sizes = []\<rparr> True)) = None
   \<and> source_metadata (snd (PreparePartitionsForUpdate launch_device 1 1
        \<lparr>dp_groups = [], dp_partition_sizes = []\<rparr> True)) = Some group_test_metadata"
  using prepare_refuses_the_current_slot [of launch_device 1 "\<lparr>dp_groups = [], dp_partition_sizes = []\<rparr>" True]
  by (simp add: launch_device_def)

end
